theory Spec2Isabelle
  imports Complex_Main "HOL-Library.AList"
begin

section \<open>Data model of \<^verbatim>\<open>src/api/auth-middleware.py\<close>\<close>

text \<open>
  Python does not enforce the annotations of a dataclass. The two timestamp fields of
  \<^verbatim>\<open>User\<close> hold a \<^verbatim>\<open>datetime\<close> when the record is built by the manager and
  whatever the decoded file holds when \<^verbatim>\<open>_load_users\<close> builds it by
  \<^verbatim>\<open>User(**user_data)\<close>, so they are modelled as a tagged value. A \<^verbatim>\<open>datetime\<close> is
  an integer (microseconds); a reading of \<^verbatim>\<open>time.time()\<close> is a real number (the
  double of the source, idealised: the difference of two readings an hour apart is
  exact in double precision).
\<close>

datatype pyval = PyDatetime int | PyStr string

record user =
  username :: string
  password_hash :: string
  api_keys :: "string list"
  permissions :: "string list"
  created_at :: pyval
  last_login :: "pyval option"
  is_active :: bool
  rate_limit :: int

record session =
  session_id :: string
  user_id :: string
  created_at :: int
  expires_at :: int
  ip_address :: string
  user_agent :: string
  is_active :: bool

text \<open>
  The dictionaries that \<^verbatim>\<open>_save_users\<close> and \<^verbatim>\<open>_save_sessions\<close> hand to
  \<^verbatim>\<open>json.dumps\<close>, one per record. A file of the store is modelled by the dictionary
  it decodes to: \<^verbatim>\<open>json\<close> and \<^verbatim>\<open>Fernet\<close> are taken to give back what they
  were given.
\<close>

record user_dict =
  d_username :: string
  d_password_hash :: string
  d_api_keys :: "string list"
  d_permissions :: "string list"
  d_created_at :: string
  d_last_login :: "string option"
  d_is_active :: bool
  d_rate_limit :: int

record session_dict =
  d_session_id :: string
  d_user_id :: string
  d_session_created_at :: string
  d_expires_at :: string
  d_ip_address :: string
  d_user_agent :: string
  d_session_is_active :: bool

text \<open>
  Calls of the manager that are observed by the claims: the password-hash comparison
  \<^verbatim>\<open>pwd_context.verify\<close> and the three stages of the request wrapper. They are
  appended to \<open>trace\<close>, a field the source does not have.
\<close>

datatype event = HashVerify string | TokenTried string | KeyTried string | SessionTried string

text \<open>
  What a file of the store holds: the dictionary that was encrypted into it, or bytes
  that do not decrypt. \<^verbatim>\<open>open(..., "wb")\<close> empties the file before anything is
  written, so a write that raises leaves it empty or partly written.
\<close>

datatype 'a stored = Encrypted 'a | Truncated

record manager =
  users :: "(string \<times> user) list"
  sessions :: "(string \<times> session) list"
  rate_limits :: "(string \<times> real list) list"
  failed_attempts :: "(string \<times> real list) list"
  users_file :: "(string \<times> user_dict) list stored option"
  sessions_file :: "(string \<times> session_dict) list stored option"
  trace :: "event list"

text \<open>
  The libraries the manager calls (\<^verbatim>\<open>passlib\<close>, \<^verbatim>\<open>jwt\<close>, \<^verbatim>\<open>datetime\<close>) are
  parameters. \<open>jwt_decode\<close> is given the token and the current time and returns the
  \<^verbatim>\<open>sub\<close> entry of the payload, or the exception of \<^verbatim>\<open>jwt.decode\<close>.
  \<open>pwd_verify\<close> always gives a verdict: the exception that \<^verbatim>\<open>passlib\<close> raises on
  a stored hash it cannot identify is not modelled.
\<close>

datatype jwt_error = ExpiredSignatureError | InvalidTokenError

record lib =
  pwd_verify :: "string \<Rightarrow> string \<Rightarrow> bool"
  pwd_hash :: "string \<Rightarrow> string"
  jwt_decode :: "string \<Rightarrow> int \<Rightarrow> jwt_error + string option"
  isoformat :: "int \<Rightarrow> string"
  fromisoformat :: "string \<Rightarrow> int option"

text \<open>
  What one call reads from outside the manager: \<^verbatim>\<open>datetime.utcnow()\<close>,
  \<^verbatim>\<open>time.time()\<close>, \<^verbatim>\<open>secrets.token_urlsafe(32)\<close>, the environment variable
  \<^verbatim>\<open>STRICT_SESSION_IP\<close>, and whether a statement inside the \<^verbatim>\<open>try\<close> block of a
  save or load raises. For a save, \<open>raises_at\<close> says where: in \<^verbatim>\<open>json.dumps\<close>,
  \<^verbatim>\<open>cipher.encrypt\<close> or \<^verbatim>\<open>open\<close> itself, before the file is touched; in
  \<^verbatim>\<open>f.write\<close>, after \<^verbatim>\<open>open\<close> has emptied the file; or in \<^verbatim>\<open>os.chmod\<close>,
  after the new content is written. The file has no \<^verbatim>\<open>import json\<close>, so as it
  stands the name \<^verbatim>\<open>json\<close> fails to resolve: \<open>io_raises\<close> is always true and
  \<open>raises_at\<close> is \<open>BeforeOpen\<close>. The theorems below hold for all values.
\<close>

datatype stage = BeforeOpen | InWrite | InChmod

record ambient =
  utcnow :: int
  time_now :: real
  token_urlsafe :: string
  strict_session_ip :: bool
  io_raises :: bool
  raises_at :: stage

datatype exn = AttributeError | IOFailure | ValueError string

datatype http_exception = HTTPException nat string

section \<open>Encrypted store\<close>

text \<open>The conditional expression
  \<^verbatim>\<open>user.last_login.isoformat() if user.last_login else None\<close>: \<^verbatim>\<open>None\<close> and the
  empty string are falsy, a string has no \<^verbatim>\<open>isoformat\<close>.\<close>

fun last_login_entry :: "lib \<Rightarrow> pyval option \<Rightarrow> exn + string option" where
  "last_login_entry L None = Inr None"
| "last_login_entry L (Some (PyDatetime t)) = Inr (Some (isoformat L t))"
| "last_login_entry L (Some (PyStr v)) = (if v = [] then Inr None else Inl AttributeError)"

fun user_entry :: "lib \<Rightarrow> user \<Rightarrow> exn + user_dict" where
  "user_entry L u =
     (case user.created_at u of
        PyStr v \<Rightarrow> Inl AttributeError
      | PyDatetime t \<Rightarrow>
          (case last_login_entry L (last_login u) of
             Inl e \<Rightarrow> Inl e
           | Inr ll \<Rightarrow>
               Inr \<lparr>d_username = username u, d_password_hash = password_hash u,
                    d_api_keys = api_keys u, d_permissions = permissions u,
                    d_created_at = isoformat L t, d_last_login = ll,
                    d_is_active = user.is_active u, d_rate_limit = rate_limit u\<rparr>))"

text \<open>The loop of \<^verbatim>\<open>_save_users\<close> that fills \<^verbatim>\<open>users_data\<close>.\<close>

fun users_data_loop ::
  "lib \<Rightarrow> (string \<times> user) list \<Rightarrow> (string \<times> user_dict) list \<Rightarrow> exn + (string \<times> user_dict) list" where
  "users_data_loop L [] acc = Inr acc"
| "users_data_loop L ((k, u) # rest) acc =
     (case user_entry L u of
        Inl e \<Rightarrow> Inl e
      | Inr d \<Rightarrow> users_data_loop L rest (AList.update k d acc))"

definition users_data :: "lib \<Rightarrow> (string \<times> user) list \<Rightarrow> exn + (string \<times> user_dict) list" where
  "users_data L us = users_data_loop L us []"

text \<open>What the \<^verbatim>\<open>try\<close> block of \<^verbatim>\<open>_save_users\<close> ends with: the exception it
  raises, or the dictionary it has written.\<close>

definition try_save_users :: "lib \<Rightarrow> ambient \<Rightarrow> manager \<Rightarrow> exn + (string \<times> user_dict) list" where
  "try_save_users L a s =
     (case users_data L (users s) of
        Inl e \<Rightarrow> Inl e
      | Inr d \<Rightarrow> if io_raises a then Inl IOFailure else Inr d)"

text \<open>\<^verbatim>\<open>_save_users\<close>: \<^verbatim>\<open>except Exception\<close> prints and returns normally, and
  the file is left as the statement that raised found it: untouched before
  \<^verbatim>\<open>open\<close>, emptied when \<^verbatim>\<open>f.write\<close> raises, rewritten when only
  \<^verbatim>\<open>os.chmod\<close> raises.\<close>

definition save_users :: "lib \<Rightarrow> ambient \<Rightarrow> manager \<Rightarrow> manager" where
  "save_users L a s =
     (case users_data L (users s) of
        Inl e \<Rightarrow> s
      | Inr d \<Rightarrow>
          if \<not> io_raises a then s\<lparr>users_file := Some (Encrypted d)\<rparr>
          else
            (case raises_at a of
               BeforeOpen \<Rightarrow> s
             | InWrite \<Rightarrow> s\<lparr>users_file := Some Truncated\<rparr>
             | InChmod \<Rightarrow> s\<lparr>users_file := Some (Encrypted d)\<rparr>))"

text \<open>\<^verbatim>\<open>User(**user_data)\<close>: the entries are stored as decoded, so both timestamps stay
  strings.\<close>

definition user_of_dict :: "user_dict \<Rightarrow> user" where
  "user_of_dict d =
     \<lparr>username = d_username d, password_hash = d_password_hash d,
      api_keys = d_api_keys d, permissions = d_permissions d,
      created_at = PyStr (d_created_at d),
      last_login = map_option PyStr (d_last_login d),
      is_active = d_is_active d, rate_limit = d_rate_limit d\<rparr>"

fun load_users_loop :: "(string \<times> user_dict) list \<Rightarrow> (string \<times> user) list \<Rightarrow> (string \<times> user) list" where
  "load_users_loop [] acc = acc"
| "load_users_loop ((k, d) # rest) acc = load_users_loop rest (AList.update k (user_of_dict d) acc)"

definition load_users :: "ambient \<Rightarrow> manager \<Rightarrow> (string \<times> user) list" where
  "load_users a s =
     (case users_file s of
        None \<Rightarrow> []
      | Some Truncated \<Rightarrow> []
      | Some (Encrypted d) \<Rightarrow> if io_raises a then [] else load_users_loop d [])"

fun session_entry :: "lib \<Rightarrow> session \<Rightarrow> session_dict" where
  "session_entry L x =
     \<lparr>d_session_id = session_id x, d_user_id = user_id x,
      d_session_created_at = isoformat L (session.created_at x),
      d_expires_at = isoformat L (expires_at x),
      d_ip_address = ip_address x, d_user_agent = user_agent x,
      d_session_is_active = session.is_active x\<rparr>"

fun sessions_data_loop ::
  "lib \<Rightarrow> (string \<times> session) list \<Rightarrow> (string \<times> session_dict) list \<Rightarrow> (string \<times> session_dict) list" where
  "sessions_data_loop L [] acc = acc"
| "sessions_data_loop L ((k, x) # rest) acc =
     sessions_data_loop L rest (AList.update k (session_entry L x) acc)"

definition sessions_data :: "lib \<Rightarrow> (string \<times> session) list \<Rightarrow> (string \<times> session_dict) list" where
  "sessions_data L xs = sessions_data_loop L xs []"

text \<open>What the \<^verbatim>\<open>try\<close> block of \<^verbatim>\<open>_save_sessions\<close> ends with.\<close>

definition try_save_sessions :: "lib \<Rightarrow> ambient \<Rightarrow> manager \<Rightarrow> exn + (string \<times> session_dict) list" where
  "try_save_sessions L a s =
     (if io_raises a then Inl IOFailure else Inr (sessions_data L (sessions s)))"

text \<open>\<^verbatim>\<open>_save_sessions\<close>, with the same three places to raise.\<close>

definition save_sessions :: "lib \<Rightarrow> ambient \<Rightarrow> manager \<Rightarrow> manager" where
  "save_sessions L a s =
     (if \<not> io_raises a then s\<lparr>sessions_file := Some (Encrypted (sessions_data L (sessions s)))\<rparr>
      else
        (case raises_at a of
           BeforeOpen \<Rightarrow> s
         | InWrite \<Rightarrow> s\<lparr>sessions_file := Some Truncated\<rparr>
         | InChmod \<Rightarrow> s\<lparr>sessions_file := Some (Encrypted (sessions_data L (sessions s)))\<rparr>))"

text \<open>The loop of \<^verbatim>\<open>_load_sessions\<close>: \<^verbatim>\<open>datetime.fromisoformat\<close> raises
  \<^verbatim>\<open>ValueError\<close> on a string it cannot read.\<close>

fun session_of_dict :: "lib \<Rightarrow> session_dict \<Rightarrow> exn + session" where
  "session_of_dict L d =
     (case fromisoformat L (d_session_created_at d) of
        None \<Rightarrow> Inl (ValueError ''Invalid isoformat string'')
      | Some c \<Rightarrow>
          (case fromisoformat L (d_expires_at d) of
             None \<Rightarrow> Inl (ValueError ''Invalid isoformat string'')
           | Some e \<Rightarrow>
               Inr \<lparr>session_id = d_session_id d, user_id = d_user_id d,
                    created_at = c, expires_at = e,
                    ip_address = d_ip_address d, user_agent = d_user_agent d,
                    is_active = d_session_is_active d\<rparr>))"

fun load_sessions_loop ::
  "lib \<Rightarrow> (string \<times> session_dict) list \<Rightarrow> (string \<times> session) list \<Rightarrow> exn + (string \<times> session) list" where
  "load_sessions_loop L [] acc = Inr acc"
| "load_sessions_loop L ((k, d) # rest) acc =
     (case session_of_dict L d of
        Inl e \<Rightarrow> Inl e
      | Inr x \<Rightarrow> load_sessions_loop L rest (AList.update k x acc))"

definition load_sessions :: "lib \<Rightarrow> ambient \<Rightarrow> manager \<Rightarrow> (string \<times> session) list" where
  "load_sessions L a s =
     (case sessions_file s of
        None \<Rightarrow> []
      | Some Truncated \<Rightarrow> []
      | Some (Encrypted d) \<Rightarrow>
          if io_raises a then []
          else (case load_sessions_loop L d [] of Inl e \<Rightarrow> [] | Inr xs \<Rightarrow> xs))"

section \<open>Operations of \<^verbatim>\<open>AuthenticationManager\<close>\<close>

text \<open>\<^verbatim>\<open>key in d\<close> and \<^verbatim>\<open>d.get(key, [])\<close> on a dictionary held as an association
  list.\<close>

definition has_key :: "('k \<times> 'v) list \<Rightarrow> 'k \<Rightarrow> bool" where
  "has_key d k = (map_of d k \<noteq> None)"

definition timestamps :: "(string \<times> real list) list \<Rightarrow> string \<Rightarrow> real list" where
  "timestamps d k = (case map_of d k of None \<Rightarrow> [] | Some ts \<Rightarrow> ts)"

text \<open>\<^verbatim>\<open>_record_failed_attempt\<close>: drop the attempts that are an hour old or older, then
  append the current time.\<close>

definition record_failed_attempt :: "ambient \<Rightarrow> string \<Rightarrow> manager \<Rightarrow> manager" where
  "record_failed_attempt a identifier s =
     (let now = time_now a;
          kept = filter (\<lambda>attempt. now - attempt < 3600) (timestamps (failed_attempts s) identifier)
      in s\<lparr>failed_attempts := AList.update identifier (kept @ [now]) (failed_attempts s)\<rparr>)"

text \<open>\<^verbatim>\<open>is_blocked\<close> reads no clock: it counts the list as the last recorded failure
  left it.\<close>

definition is_blocked :: "manager \<Rightarrow> string \<Rightarrow> bool" where
  "is_blocked s identifier =
     (case map_of (failed_attempts s) identifier of
        None \<Rightarrow> False
      | Some attempts \<Rightarrow> 5 \<le> length attempts)"

text \<open>\<^verbatim>\<open>authenticate_user\<close>. The assignment to \<^verbatim>\<open>user.last_login\<close> changes the
  object held by the dictionary, which is the object returned.\<close>

definition authenticate_user ::
  "lib \<Rightarrow> ambient \<Rightarrow> string \<Rightarrow> string \<Rightarrow> manager \<Rightarrow> user option \<times> manager" where
  "authenticate_user L a uname password s =
     (case map_of (users s) uname of
        None \<Rightarrow> (None, s)
      | Some u \<Rightarrow>
          if \<not> user.is_active u then (None, s)
          else
            let s1 = s\<lparr>trace := trace s @ [HashVerify uname]\<rparr> in
            if \<not> pwd_verify L password (password_hash u)
            then (None, record_failed_attempt a uname s1)
            else
              let u' = u\<lparr>last_login := Some (PyDatetime (utcnow a))\<rparr> in
              (Some u', save_users L a (s1\<lparr>users := AList.update uname u' (users s1)\<rparr>)))"

text \<open>\<^verbatim>\<open>authenticate_api_key\<close>: the first user, in the order of the dictionary, who
  holds the key and is active.\<close>

definition authenticate_api_key :: "string \<Rightarrow> manager \<Rightarrow> user option" where
  "authenticate_api_key api_key s =
     find (\<lambda>u. api_key \<in> set (api_keys u) \<and> user.is_active u) (map snd (users s))"

definition authenticate_jwt :: "lib \<Rightarrow> ambient \<Rightarrow> string \<Rightarrow> manager \<Rightarrow> user option" where
  "authenticate_jwt L a token s =
     (case jwt_decode L token (utcnow a) of
        Inl e \<Rightarrow> None
      | Inr sub \<Rightarrow>
          (case sub of
             None \<Rightarrow> None
           | Some uname \<Rightarrow>
               if uname = [] then None
               else
                 (case map_of (users s) uname of
                    None \<Rightarrow> None
                  | Some u \<Rightarrow> if \<not> user.is_active u then None else Some u)))"

text \<open>\<^verbatim>\<open>create_session\<close>: the identifier is the reading of
  \<^verbatim>\<open>secrets.token_urlsafe(32)\<close>; 24 hours are 86400000000 microseconds. The two calls
  of \<^verbatim>\<open>datetime.utcnow()\<close> are given one reading.\<close>

definition create_session ::
  "lib \<Rightarrow> ambient \<Rightarrow> user \<Rightarrow> string \<Rightarrow> string \<Rightarrow> manager \<Rightarrow> session \<times> manager" where
  "create_session L a u ip agent s =
     (let sid = token_urlsafe a;
          x = \<lparr>session_id = sid, user_id = username u,
               created_at = utcnow a, expires_at = utcnow a + 86400000000,
               ip_address = ip, user_agent = take 200 agent, is_active = True\<rparr>
      in (x, save_sessions L a (s\<lparr>sessions := AList.update sid x (sessions s)\<rparr>)))"

definition validate_session ::
  "lib \<Rightarrow> ambient \<Rightarrow> string \<Rightarrow> string \<Rightarrow> manager \<Rightarrow> session option \<times> manager" where
  "validate_session L a sid ip s =
     (case map_of (sessions s) sid of
        None \<Rightarrow> (None, s)
      | Some x \<Rightarrow>
          if \<not> session.is_active x then (None, s)
          else if utcnow a > expires_at x
          then (None, save_sessions L a
                  (s\<lparr>sessions := AList.update sid (x\<lparr>is_active := False\<rparr>) (sessions s)\<rparr>))
          else if strict_session_ip a \<and> ip_address x \<noteq> ip then (None, s)
          else (Some x, s))"

definition revoke_session :: "lib \<Rightarrow> ambient \<Rightarrow> string \<Rightarrow> manager \<Rightarrow> manager" where
  "revoke_session L a sid s =
     (case map_of (sessions s) sid of
        None \<Rightarrow> s
      | Some x \<Rightarrow>
          save_sessions L a
            (s\<lparr>sessions := AList.update sid (x\<lparr>is_active := False\<rparr>) (sessions s)\<rparr>))"

text \<open>\<^verbatim>\<open>check_rate_limit\<close>: the cleaned list is stored on both paths, the current time
  only when the request is admitted.\<close>

text \<open>The key \<^verbatim>\<open>f"{user.username}:{endpoint}"\<close>.\<close>

definition rate_key :: "user \<Rightarrow> string \<Rightarrow> string" where
  "rate_key u endpoint = username u @ '':'' @ endpoint"

definition check_rate_limit :: "ambient \<Rightarrow> user \<Rightarrow> string \<Rightarrow> manager \<Rightarrow> bool \<times> manager" where
  "check_rate_limit a u endpoint s =
     (let now = time_now a;
          key = rate_key u endpoint;
          kept = filter (\<lambda>req_time. now - req_time < 3600) (timestamps (rate_limits s) key)
      in if rate_limit u \<le> int (length kept)
         then (False, s\<lparr>rate_limits := AList.update key kept (rate_limits s)\<rparr>)
         else (True, s\<lparr>rate_limits := AList.update key (kept @ [now]) (rate_limits s)\<rparr>))"

definition generate_api_key :: "ambient \<Rightarrow> string" where
  "generate_api_key a = ''pllm_'' @ token_urlsafe a"

definition create_user ::
  "lib \<Rightarrow> ambient \<Rightarrow> string \<Rightarrow> string \<Rightarrow> string list \<Rightarrow> manager \<Rightarrow> (exn + user) \<times> manager" where
  "create_user L a uname password perms s =
     (if has_key (users s) uname then (Inl (ValueError ''User already exists''), s)
      else
        let u = \<lparr>username = uname, password_hash = pwd_hash L password,
                 api_keys = [generate_api_key a], permissions = perms,
                 created_at = PyDatetime (utcnow a), last_login = None,
                 is_active = True, rate_limit = 100\<rparr>
        in (Inr u, save_users L a (s\<lparr>users := AList.update uname u (users s)\<rparr>)))"

text \<open>\<^verbatim>\<open>delete_user\<close>: the loop over \<^verbatim>\<open>self.sessions.values()\<close> clears the flag of
  every session of the user; nothing happens for a name that is not a key.\<close>

definition revoke_sessions_of :: "string \<Rightarrow> (string \<times> session) list \<Rightarrow> (string \<times> session) list" where
  "revoke_sessions_of uname xs =
     map (\<lambda>(k, x). (k, if user_id x = uname then x\<lparr>is_active := False\<rparr> else x)) xs"

definition delete_user :: "lib \<Rightarrow> ambient \<Rightarrow> string \<Rightarrow> manager \<Rightarrow> manager" where
  "delete_user L a uname s =
     (if has_key (users s) uname
      then
        let s1 = save_users L a (s\<lparr>users := AList.delete uname (users s)\<rparr>)
        in save_sessions L a (s1\<lparr>sessions := revoke_sessions_of uname (sessions s1)\<rparr>)
      else s)"

definition generate_new_api_key ::
  "lib \<Rightarrow> ambient \<Rightarrow> string \<Rightarrow> manager \<Rightarrow> (exn + string) \<times> manager" where
  "generate_new_api_key L a uname s =
     (case map_of (users s) uname of
        None \<Rightarrow> (Inl (ValueError ''User not found''), s)
      | Some u \<Rightarrow>
          let new_key = generate_api_key a;
              u' = u\<lparr>api_keys := api_keys u @ [new_key]\<rparr>
          in (Inr new_key, save_users L a (s\<lparr>users := AList.update uname u' (users s)\<rparr>)))"

definition revoke_api_key :: "lib \<Rightarrow> ambient \<Rightarrow> string \<Rightarrow> string \<Rightarrow> manager \<Rightarrow> manager" where
  "revoke_api_key L a uname api_key s =
     (case map_of (users s) uname of
        None \<Rightarrow> s
      | Some u \<Rightarrow>
          if api_key \<in> set (api_keys u)
          then
            let u' = u\<lparr>api_keys := remove1 api_key (api_keys u)\<rparr>
            in save_users L a (s\<lparr>users := AList.update uname u' (users s)\<rparr>)
          else s)"

definition cleanup_expired_sessions :: "lib \<Rightarrow> ambient \<Rightarrow> manager \<Rightarrow> nat \<times> manager" where
  "cleanup_expired_sessions L a s =
     (let now = utcnow a;
          expired_sessions = map fst (filter (\<lambda>(k, x). expires_at x < now) (sessions s));
          s1 = s\<lparr>sessions := filter (\<lambda>(k, x). \<not> expires_at x < now) (sessions s)\<rparr>
      in (length expired_sessions,
          if expired_sessions \<noteq> [] then save_sessions L a s1 else s1))"

section \<open>The request wrapper of \<^verbatim>\<open>AuthenticationRequired\<close>\<close>

record request =
  authorization :: "string option"
  session_cookie :: "string option"
  client_host :: "string option"
  url_path :: string

text \<open>\<^verbatim>\<open>auth_header and auth_header.startswith("Bearer ")\<close>, then
  \<^verbatim>\<open>auth_header[7:]\<close>.\<close>

definition bearer_token :: "string option \<Rightarrow> string option" where
  "bearer_token h =
     (case h of
        None \<Rightarrow> None
      | Some v \<Rightarrow> if take 7 v = ''Bearer '' then Some (drop 7 v) else None)"

text \<open>The first part of \<^verbatim>\<open>wrapper\<close>, up to \<^verbatim>\<open>if not user\<close>: the
  \<^verbatim>\<open>if\<close> branch for a bearer header, the \<^verbatim>\<open>elif\<close> branch for a non-empty
  cookie.\<close>

definition resolve_user :: "lib \<Rightarrow> ambient \<Rightarrow> request \<Rightarrow> manager \<Rightarrow> user option \<times> manager" where
  "resolve_user L a req s =
     (case bearer_token (authorization req) of
        Some token \<Rightarrow>
          (let s1 = s\<lparr>trace := trace s @ [TokenTried token]\<rparr> in
           case authenticate_jwt L a token s1 of
             Some u \<Rightarrow> (Some u, s1)
           | None \<Rightarrow>
               (let s2 = s1\<lparr>trace := trace s1 @ [KeyTried token]\<rparr>
                in (authenticate_api_key token s2, s2)))
      | None \<Rightarrow>
          (case session_cookie req of
             None \<Rightarrow> (None, s)
           | Some c \<Rightarrow>
               if c = [] then (None, s)
               else
                 (let client_ip = (case client_host req of None \<Rightarrow> ''unknown'' | Some h \<Rightarrow> h);
                      s1 = s\<lparr>trace := trace s @ [SessionTried c]\<rparr>
                  in case validate_session L a c client_ip s1 of
                       (None, s2) \<Rightarrow> (None, s2)
                     | (Some x, s2) \<Rightarrow> (map_of (users s2) (user_id x), s2))))"

text \<open>\<^verbatim>\<open>wrapper\<close>: the exception raised, or the user stored in
  \<^verbatim>\<open>request.state.user\<close> before the wrapped handler runs. The decorator's
  \<^verbatim>\<open>permissions\<close> is a list, empty for \<^verbatim>\<open>None\<close> (both are falsy).\<close>

definition wrapper ::
  "lib \<Rightarrow> ambient \<Rightarrow> string list \<Rightarrow> request \<Rightarrow> manager \<Rightarrow> (http_exception + user) \<times> manager" where
  "wrapper L a perms req s =
     (case resolve_user L a req s of
        (None, s1) \<Rightarrow> (Inl (HTTPException 401 ''Authentication required''), s1)
      | (Some u, s1) \<Rightarrow>
          if perms \<noteq> [] \<and> \<not> list_ex (\<lambda>perm. perm \<in> set (permissions u)) perms
          then (Inl (HTTPException 403 ''Insufficient permissions''), s1)
          else
            (case check_rate_limit a u (url_path req) s1 of
               (False, s2) \<Rightarrow> (Inl (HTTPException 429 ''Rate limit exceeded''), s2)
             | (True, s2) \<Rightarrow> (Inr u, s2)))"

section \<open>Sequences of calls\<close>

datatype call =
    AuthenticateUser string string
  | CreateSession user string string
  | ValidateSession string string
  | RevokeSession string
  | CheckRateLimit user string
  | CreateUser string string "string list"
  | DeleteUser string
  | GenerateNewApiKey string
  | RevokeApiKey string string
  | CleanupExpiredSessions
  | Request "string list" request

datatype outcome =
    ReturnedUser "user option"
  | ReturnedSession "session option"
  | ReturnedBool bool
  | ReturnedKey string
  | ReturnedCount nat
  | ReturnedNone
  | Raised exn
  | RaisedHTTP http_exception

fun step :: "lib \<Rightarrow> ambient \<Rightarrow> call \<Rightarrow> manager \<Rightarrow> outcome \<times> manager" where
  "step L a (AuthenticateUser uname password) s =
     (case authenticate_user L a uname password s of (r, s') \<Rightarrow> (ReturnedUser r, s'))"
| "step L a (CreateSession u ip agent) s =
     (case create_session L a u ip agent s of (x, s') \<Rightarrow> (ReturnedSession (Some x), s'))"
| "step L a (ValidateSession sid ip) s =
     (case validate_session L a sid ip s of (r, s') \<Rightarrow> (ReturnedSession r, s'))"
| "step L a (RevokeSession sid) s = (ReturnedNone, revoke_session L a sid s)"
| "step L a (CheckRateLimit u endpoint) s =
     (case check_rate_limit a u endpoint s of (b, s') \<Rightarrow> (ReturnedBool b, s'))"
| "step L a (CreateUser uname password perms) s =
     (case create_user L a uname password perms s of
        (Inl e, s') \<Rightarrow> (Raised e, s')
      | (Inr u, s') \<Rightarrow> (ReturnedUser (Some u), s'))"
| "step L a (DeleteUser uname) s = (ReturnedNone, delete_user L a uname s)"
| "step L a (GenerateNewApiKey uname) s =
     (case generate_new_api_key L a uname s of
        (Inl e, s') \<Rightarrow> (Raised e, s')
      | (Inr k, s') \<Rightarrow> (ReturnedKey k, s'))"
| "step L a (RevokeApiKey uname api_key) s = (ReturnedNone, revoke_api_key L a uname api_key s)"
| "step L a CleanupExpiredSessions s =
     (case cleanup_expired_sessions L a s of (n, s') \<Rightarrow> (ReturnedCount n, s'))"
| "step L a (Request perms req) s =
     (case wrapper L a perms req s of
        (Inl e, s') \<Rightarrow> (RaisedHTTP e, s')
      | (Inr u, s') \<Rightarrow> (ReturnedUser (Some u), s'))"

text \<open>A run of the manager: each call with the readings it makes.\<close>

fun run :: "lib \<Rightarrow> (ambient \<times> call) list \<Rightarrow> manager \<Rightarrow> manager" where
  "run L [] s = s"
| "run L ((a, c) # cs) s = run L cs (snd (step L a c s))"

text \<open>The call stores a new session under the identifier \<open>sid\<close>.\<close>

fun issues :: "string \<Rightarrow> ambient \<times> call \<Rightarrow> bool" where
  "issues sid (a, CreateSession u ip agent) = (token_urlsafe a = sid)"
| "issues sid (a, c) = False"

text \<open>The parts of the manager that live in memory.\<close>

definition in_memory ::
  "manager \<Rightarrow> (string \<times> user) list \<times> (string \<times> session) list \<times>
     (string \<times> real list) list \<times> (string \<times> real list) list \<times> event list" where
  "in_memory s = (users s, sessions s, rate_limits s, failed_attempts s, trace s)"

text \<open>The name is a key of the user dictionary and its user is active.\<close>

definition active_user :: "manager \<Rightarrow> string \<Rightarrow> bool" where
  "active_user s uname =
     (case map_of (users s) uname of None \<Rightarrow> False | Some u \<Rightarrow> user.is_active u)"

text \<open>The name is the key of an active user in no state of the run.\<close>

fun never_active :: "lib \<Rightarrow> string \<Rightarrow> (ambient \<times> call) list \<Rightarrow> manager \<Rightarrow> bool" where
  "never_active L uname [] s = (\<not> active_user s uname)"
| "never_active L uname ((a, c) # cs) s =
     (\<not> active_user s uname \<and> never_active L uname cs (snd (step L a c s)))"

text \<open>The session stored under the identifier, if any, is inactive.\<close>

definition inactive :: "manager \<Rightarrow> string \<Rightarrow> bool" where
  "inactive s sid =
     (case map_of (sessions s) sid of None \<Rightarrow> True | Some x \<Rightarrow> \<not> session.is_active x)"


section \<open>Example values\<close>

definition lib0 :: lib where
  "lib0 = \<lparr>pwd_verify = (\<lambda>password h. h = ''#'' @ password),
           pwd_hash = (\<lambda>password. ''#'' @ password),
           jwt_decode = (\<lambda>token now. if token = ''jwt-alice'' then Inr (Some ''alice'')
                                       else Inl InvalidTokenError),
           isoformat = (\<lambda>t. if t = 0 then ''1970-01-01T00:00:00'' else ''later''),
           fromisoformat = (\<lambda>v. if v = ''1970-01-01T00:00:00'' then Some 0 else None)\<rparr>"

text \<open>A reading in which a save, when it raises, raises before the file is opened.\<close>

definition reading :: "int \<Rightarrow> real \<Rightarrow> string \<Rightarrow> bool \<Rightarrow> ambient" where
  "reading dt t tok failing =
     \<lparr>utcnow = dt, time_now = t, token_urlsafe = tok, strict_session_ip = False,
      io_raises = failing, raises_at = BeforeOpen\<rparr>"

definition alice :: user where
  "alice = \<lparr>username = ''alice'', password_hash = ''#wonderland'', api_keys = [''pllm_a''],
            permissions = [''chat''], created_at = PyDatetime 0, last_login = None,
            is_active = True, rate_limit = 2\<rparr>"

definition bob :: user where
  "bob = \<lparr>username = ''bob'', password_hash = ''#builder'', api_keys = [''pllm_b''],
          permissions = [''models''], created_at = PyDatetime 0, last_login = None,
          is_active = True, rate_limit = 100\<rparr>"

definition session1 :: session where
  "session1 = \<lparr>session_id = ''s1'', user_id = ''bob'', created_at = 0, expires_at = 100,
               ip_address = ''10.0.0.1'', user_agent = ''curl'', is_active = True\<rparr>"

definition manager0 :: manager where
  "manager0 = \<lparr>users = [(''alice'', alice), (''bob'', bob)], sessions = [(''s1'', session1)],
               rate_limits = [], failed_attempts = [],
               users_file = None, sessions_file = None, trace = []\<rparr>"

section \<open>Lemmas on the stores\<close>

lemma save_users_fields:
  "users (save_users L a s) = users s"
  "sessions (save_users L a s) = sessions s"
  "rate_limits (save_users L a s) = rate_limits s"
  "failed_attempts (save_users L a s) = failed_attempts s"
  "trace (save_users L a s) = trace s"
  "sessions_file (save_users L a s) = sessions_file s"
  by (simp_all add: save_users_def split: sum.split stage.split)

lemma save_sessions_fields:
  "users (save_sessions L a s) = users s"
  "sessions (save_sessions L a s) = sessions s"
  "rate_limits (save_sessions L a s) = rate_limits s"
  "failed_attempts (save_sessions L a s) = failed_attempts s"
  "trace (save_sessions L a s) = trace s"
  "users_file (save_sessions L a s) = users_file s"
  by (simp_all add: save_sessions_def split: stage.split)

lemma map_of_filter_distinct:
  "distinct (map fst xs) \<Longrightarrow>
   map_of (filter P xs) k = (case map_of xs k of None \<Rightarrow> None | Some v \<Rightarrow> if P (k, v) then Some v else None)"
proof (induction xs)
  case Nil
  then show ?case by simp
next
  case (Cons p xs)
  obtain k' v' where p: "p = (k', v')" by (cases p)
  from Cons.prems have notin: "k' \<notin> fst ` set xs"
    by (simp add: p)
  then have nk: "map_of xs k' = None"
    by (simp add: map_of_eq_None_iff)
  have "fst ` set (filter P xs) \<subseteq> fst ` set xs"
    by (rule image_mono) simp
  with notin have "k' \<notin> fst ` set (filter P xs)"
    by blast
  then have nf: "map_of (filter P xs) k' = None"
    by (simp add: map_of_eq_None_iff)
  from Cons.prems have d: "distinct (map fst xs)" by simp
  show ?case
  proof (cases "k = k'")
    case True
    then show ?thesis by (simp add: p nk nf)
  next
    case False
    then show ?thesis using Cons.IH [OF d] by (simp add: p)
  qed
qed

lemma map_of_revoke_sessions_of:
  "map_of (revoke_sessions_of uname xs) k =
     map_option (\<lambda>x. if user_id x = uname then x\<lparr>is_active := False\<rparr> else x) (map_of xs k)"
  unfolding revoke_sessions_of_def by (simp only: map_of_map comp_apply)

lemma fst_revoke_sessions_of: "map fst (revoke_sessions_of uname xs) = map fst xs"
  unfolding revoke_sessions_of_def by (induction xs) (simp_all add: case_prod_unfold)

lemma validate_session_sessions:
  "sessions (snd (validate_session L a k ip s)) = sessions s \<or>
   (\<exists>x. map_of (sessions s) k = Some x \<and>
        sessions (snd (validate_session L a k ip s)) = AList.update k (x\<lparr>is_active := False\<rparr>) (sessions s))"
  by (auto simp: validate_session_def save_sessions_fields split: option.splits)

lemma validate_session_other:
  "users (snd (validate_session L a k ip s)) = users s"
  "rate_limits (snd (validate_session L a k ip s)) = rate_limits s"
  "failed_attempts (snd (validate_session L a k ip s)) = failed_attempts s"
  by (auto simp: validate_session_def save_sessions_fields split: option.splits)

lemma check_rate_limit_fields:
  "sessions (snd (check_rate_limit a u e s)) = sessions s"
  "users (snd (check_rate_limit a u e s)) = users s"
  "failed_attempts (snd (check_rate_limit a u e s)) = failed_attempts s"
  by (simp_all add: check_rate_limit_def Let_def)

lemma resolve_user_sessions:
  "sessions (snd (resolve_user L a req s)) = sessions s \<or>
   (\<exists>k x. map_of (sessions s) k = Some x \<and>
        sessions (snd (resolve_user L a req s)) = AList.update k (x\<lparr>is_active := False\<rparr>) (sessions s))"
proof (cases "bearer_token (authorization req)")
  case (Some token)
  then show ?thesis
    by (simp add: resolve_user_def Let_def split: option.splits)
next
  case None
  show ?thesis
  proof (cases "session_cookie req")
    case n: None
    then show ?thesis using None by (simp add: resolve_user_def)
  next
    case (Some c)
    let ?ip = "case client_host req of None \<Rightarrow> ''unknown'' | Some h \<Rightarrow> h"
    let ?s1 = "s\<lparr>trace := trace s @ [SessionTried c]\<rparr>"
    have eq: "c \<noteq> [] \<Longrightarrow> snd (resolve_user L a req s) = snd (validate_session L a c ?ip ?s1)"
      using None Some by (simp add: resolve_user_def Let_def split: prod.splits option.splits)
    show ?thesis
    proof (cases "c = []")
      case True
      then show ?thesis using None Some by (simp add: resolve_user_def)
    next
      case False
      then show ?thesis
        using validate_session_sessions [of L a c ?ip ?s1] eq by auto
    qed
  qed
qed

lemma wrapper_sessions:
  "sessions (snd (wrapper L a perms req s)) = sessions (snd (resolve_user L a req s))"
proof -
  obtain r s1 where rs: "resolve_user L a req s = (r, s1)"
    by (cases "resolve_user L a req s")
  show ?thesis
  proof (cases r)
    case None
    then show ?thesis by (simp add: wrapper_def rs)
  next
    case (Some u)
    obtain b s2 where c: "check_rate_limit a u (url_path req) s1 = (b, s2)"
      by (cases "check_rate_limit a u (url_path req) s1")
    have "sessions s2 = sessions s1"
      using check_rate_limit_fields(1) [of a u "url_path req" s1] by (simp add: c)
    then show ?thesis
      by (cases b) (simp_all add: wrapper_def rs Some c)
  qed
qed

lemma inactive_deactivated:
  "inactive s sid \<Longrightarrow> sessions s' = AList.update k (x\<lparr>is_active := False\<rparr>) (sessions s) \<Longrightarrow>
   inactive s' sid"
  by (simp add: inactive_def update_conv)

lemma inactive_stored:
  "inactive s sid \<Longrightarrow> k \<noteq> sid \<Longrightarrow> sessions s' = AList.update k x (sessions s) \<Longrightarrow>
   inactive s' sid"
  by (simp add: inactive_def update_conv)

lemma inactive_revoked:
  "inactive s sid \<Longrightarrow> sessions s' = revoke_sessions_of u (sessions s) \<Longrightarrow> inactive s' sid"
  by (cases "map_of (sessions s) sid") (simp_all add: inactive_def map_of_revoke_sessions_of)

lemma inactive_filtered:
  "inactive s sid \<Longrightarrow> distinct (map fst (sessions s)) \<Longrightarrow> sessions s' = filter P (sessions s) \<Longrightarrow>
   inactive s' sid"
  by (cases "map_of (sessions s) sid") (simp_all add: inactive_def map_of_filter_distinct)

lemma validate_session_inactive:
  assumes "inactive s sid"
  shows "inactive (snd (validate_session L a k ip s)) sid"
  using validate_session_sessions [of L a k ip s]
proof
  assume "sessions (snd (validate_session L a k ip s)) = sessions s"
  then show ?thesis using assms by (simp add: inactive_def)
next
  assume "\<exists>x. map_of (sessions s) k = Some x \<and>
        sessions (snd (validate_session L a k ip s)) = AList.update k (x\<lparr>is_active := False\<rparr>) (sessions s)"
  then obtain x where
    "sessions (snd (validate_session L a k ip s)) = AList.update k (x\<lparr>is_active := False\<rparr>) (sessions s)"
    by blast
  then show ?thesis using assms by (rule inactive_deactivated [rotated])
qed

lemma resolve_user_inactive:
  assumes "inactive s sid"
  shows "inactive (snd (resolve_user L a req s)) sid"
  using resolve_user_sessions [of L a req s]
proof
  assume "sessions (snd (resolve_user L a req s)) = sessions s"
  then show ?thesis using assms by (simp add: inactive_def)
next
  assume "\<exists>k x. map_of (sessions s) k = Some x \<and>
        sessions (snd (resolve_user L a req s)) = AList.update k (x\<lparr>is_active := False\<rparr>) (sessions s)"
  then obtain k x where
    "sessions (snd (resolve_user L a req s)) = AList.update k (x\<lparr>is_active := False\<rparr>) (sessions s)"
    by blast
  then show ?thesis using assms by (rule inactive_deactivated [rotated])
qed

lemma wrapper_inactive:
  "inactive s sid \<Longrightarrow> inactive (snd (wrapper L a perms req s)) sid"
  using resolve_user_inactive [of s sid L a req] wrapper_sessions [of L a perms req s]
  by (simp add: inactive_def)

lemma revoke_session_sessions:
  "sessions (revoke_session L a k s) =
     (case map_of (sessions s) k of
        None \<Rightarrow> sessions s
      | Some x \<Rightarrow> AList.update k (x\<lparr>is_active := False\<rparr>) (sessions s))"
  by (simp add: revoke_session_def save_sessions_fields split: option.splits)

lemma revoke_session_inactive:
  "inactive s sid \<Longrightarrow> inactive (revoke_session L a k s) sid"
  by (cases "map_of (sessions s) k")
     (simp_all add: inactive_def revoke_session_sessions update_conv)

lemma delete_user_sessions:
  "sessions (delete_user L a uname s) =
     (if has_key (users s) uname then revoke_sessions_of uname (sessions s) else sessions s)"
  by (simp add: delete_user_def Let_def save_users_fields save_sessions_fields)

lemma delete_user_inactive:
  assumes "inactive s sid"
  shows "inactive (delete_user L a uname s) sid"
proof (cases "has_key (users s) uname")
  case True
  then have "sessions (delete_user L a uname s) = revoke_sessions_of uname (sessions s)"
    by (simp add: delete_user_sessions)
  with assms show ?thesis by (rule inactive_revoked)
next
  case False
  then show ?thesis using assms by (simp add: delete_user_sessions inactive_def)
qed

lemma cleanup_sessions:
  "sessions (snd (cleanup_expired_sessions L a s)) =
     filter (\<lambda>(k, x). \<not> expires_at x < utcnow a) (sessions s)"
  by (simp add: cleanup_expired_sessions_def Let_def save_sessions_fields)

lemma cleanup_inactive:
  assumes "inactive s sid" "distinct (map fst (sessions s))"
  shows "inactive (snd (cleanup_expired_sessions L a s)) sid"
  using assms cleanup_sessions [of L a s] by (rule inactive_filtered)

lemma create_session_sessions:
  "sessions (snd (create_session L a u ip agent s)) =
     AList.update (token_urlsafe a) (fst (create_session L a u ip agent s)) (sessions s)"
  by (simp add: create_session_def Let_def save_sessions_fields)

lemma create_session_inactive:
  assumes "inactive s sid" "token_urlsafe a \<noteq> sid"
  shows "inactive (snd (create_session L a u ip agent s)) sid"
  using assms create_session_sessions [of L a u ip agent s] by (rule inactive_stored)

lemma authenticate_user_sessions:
  "sessions (snd (authenticate_user L a uname pw s)) = sessions s"
  by (simp add: authenticate_user_def record_failed_attempt_def Let_def save_users_fields
           split: option.splits)

lemma create_user_sessions:
  "sessions (snd (create_user L a uname pw perms s)) = sessions s"
  by (simp add: create_user_def Let_def save_users_fields)

lemma generate_new_api_key_sessions:
  "sessions (snd (generate_new_api_key L a uname s)) = sessions s"
  by (simp add: generate_new_api_key_def Let_def save_users_fields split: option.splits)

lemma revoke_api_key_sessions:
  "sessions (revoke_api_key L a uname k s) = sessions s"
  by (simp add: revoke_api_key_def Let_def save_users_fields split: option.splits)

lemma snd_step:
  "snd (step L a (AuthenticateUser n p) s) = snd (authenticate_user L a n p s)"
  "snd (step L a (CreateSession u ip agent) s) = snd (create_session L a u ip agent s)"
  "snd (step L a (ValidateSession k ip) s) = snd (validate_session L a k ip s)"
  "snd (step L a (RevokeSession k) s) = revoke_session L a k s"
  "snd (step L a (CheckRateLimit u e) s) = snd (check_rate_limit a u e s)"
  "snd (step L a (CreateUser n p perms) s) = snd (create_user L a n p perms s)"
  "snd (step L a (DeleteUser n) s) = delete_user L a n s"
  "snd (step L a (GenerateNewApiKey n) s) = snd (generate_new_api_key L a n s)"
  "snd (step L a (RevokeApiKey n k) s) = revoke_api_key L a n k s"
  "snd (step L a CleanupExpiredSessions s) = snd (cleanup_expired_sessions L a s)"
  "snd (step L a (Request perms req) s) = snd (wrapper L a perms req s)"
  by (simp_all add: case_prod_unfold split: sum.split)

lemma validate_session_distinct:
  assumes "distinct (map fst (sessions s))"
  shows "distinct (map fst (sessions (snd (validate_session L a k ip s))))"
  using validate_session_sessions [of L a k ip s] assms
  by (auto simp: distinct_update)

lemma resolve_user_distinct:
  assumes "distinct (map fst (sessions s))"
  shows "distinct (map fst (sessions (snd (resolve_user L a req s))))"
  using resolve_user_sessions [of L a req s] assms
  by (auto simp: distinct_update)

lemma step_distinct:
  assumes "distinct (map fst (sessions s))"
  shows "distinct (map fst (sessions (snd (step L a c s))))"
proof (cases c)
  case (AuthenticateUser n p)
  then show ?thesis using assms by (simp del: step.simps add: snd_step authenticate_user_sessions)
next
  case (CreateSession u ip agent)
  then show ?thesis using assms by (simp del: step.simps add: snd_step create_session_sessions distinct_update)
next
  case (ValidateSession k ip)
  then show ?thesis using assms by (simp del: step.simps add: snd_step validate_session_distinct)
next
  case (RevokeSession k)
  then show ?thesis using assms
    by (simp del: step.simps add: snd_step revoke_session_sessions distinct_update split: option.split)
next
  case (CheckRateLimit u e)
  then show ?thesis using assms by (simp del: step.simps add: snd_step check_rate_limit_fields)
next
  case (CreateUser n p perms)
  then show ?thesis using assms by (simp del: step.simps add: snd_step create_user_sessions)
next
  case (DeleteUser n)
  then show ?thesis using assms
    by (simp del: step.simps add: snd_step delete_user_sessions fst_revoke_sessions_of)
next
  case (GenerateNewApiKey n)
  then show ?thesis using assms by (simp del: step.simps add: snd_step generate_new_api_key_sessions)
next
  case (RevokeApiKey n k)
  then show ?thesis using assms by (simp del: step.simps add: snd_step revoke_api_key_sessions)
next
  case CleanupExpiredSessions
  then show ?thesis using assms by (simp del: step.simps add: snd_step cleanup_sessions distinct_map_filter)
next
  case (Request perms req)
  then show ?thesis using assms by (simp del: step.simps add: snd_step wrapper_sessions resolve_user_distinct)
qed

lemma step_inactive:
  assumes "inactive s sid" "distinct (map fst (sessions s))" "\<not> issues sid (a, c)"
  shows "inactive (snd (step L a c s)) sid"
proof (cases c)
  case (AuthenticateUser n p)
  then show ?thesis using assms(1) by (simp del: step.simps add: snd_step inactive_def authenticate_user_sessions)
next
  case (CreateSession u ip agent)
  then show ?thesis using assms(1,3) by (simp del: step.simps add: snd_step create_session_inactive)
next
  case (ValidateSession k ip)
  then show ?thesis using assms(1) by (simp del: step.simps add: snd_step validate_session_inactive)
next
  case (RevokeSession k)
  then show ?thesis using assms(1) by (simp del: step.simps add: snd_step revoke_session_inactive)
next
  case (CheckRateLimit u e)
  then show ?thesis using assms(1) by (simp del: step.simps add: snd_step inactive_def check_rate_limit_fields)
next
  case (CreateUser n p perms)
  then show ?thesis using assms(1) by (simp del: step.simps add: snd_step inactive_def create_user_sessions)
next
  case (DeleteUser n)
  then show ?thesis using assms(1) by (simp del: step.simps add: snd_step delete_user_inactive)
next
  case (GenerateNewApiKey n)
  then show ?thesis using assms(1) by (simp del: step.simps add: snd_step inactive_def generate_new_api_key_sessions)
next
  case (RevokeApiKey n k)
  then show ?thesis using assms(1) by (simp del: step.simps add: snd_step inactive_def revoke_api_key_sessions)
next
  case CleanupExpiredSessions
  then show ?thesis using assms(1,2) by (simp del: step.simps add: snd_step cleanup_inactive)
next
  case (Request perms req)
  then show ?thesis using assms(1) by (simp del: step.simps add: snd_step wrapper_inactive)
qed

lemma run_inactive:
  "inactive s sid \<Longrightarrow> distinct (map fst (sessions s)) \<Longrightarrow> \<not> list_ex (issues sid) cs \<Longrightarrow>
   inactive (run L cs s) sid"
proof (induction cs arbitrary: s)
  case Nil
  then show ?case by simp
next
  case (Cons p cs)
  obtain a c where p: "p = (a, c)" by (cases p)
  from Cons.prems have ni: "\<not> issues sid (a, c)" and rest: "\<not> list_ex (issues sid) cs"
    by (simp_all add: p)
  have "inactive (snd (step L a c s)) sid"
    using Cons.prems(1,2) ni by (rule step_inactive)
  moreover have "distinct (map fst (sessions (snd (step L a c s))))"
    using Cons.prems(2) by (rule step_distinct)
  ultimately have "inactive (run L cs (snd (step L a c s))) sid"
    using rest by (rule Cons.IH)
  then show ?case by (simp add: p)
qed

lemma run_distinct:
  "distinct (map fst (sessions s)) \<Longrightarrow> distinct (map fst (sessions (run L cs s)))"
proof (induction cs arbitrary: s)
  case Nil
  then show ?case by simp
next
  case (Cons p cs)
  obtain a c where p: "p = (a, c)" by (cases p)
  show ?case using Cons.IH [OF step_distinct [OF Cons.prems, of L a c]] by (simp add: p)
qed

lemma validate_session_of_inactive:
  "inactive s sid \<Longrightarrow> validate_session L a sid ip s = (None, s)"
  by (cases "map_of (sessions s) sid") (simp_all add: inactive_def validate_session_def)

lemma authenticate_user_failed_attempts:
  "\<not> active_user s ident \<Longrightarrow>
   map_of (failed_attempts (snd (authenticate_user L a uname password s))) ident =
   map_of (failed_attempts s) ident"
  by (cases "map_of (users s) uname")
     (auto simp: authenticate_user_def active_user_def Let_def save_users_fields
        record_failed_attempt_def update_conv)

lemma other_failed_attempts:
  "failed_attempts (snd (create_session L a u ip agent s)) = failed_attempts s"
  "failed_attempts (revoke_session L a k s) = failed_attempts s"
  "failed_attempts (snd (create_user L a n p perms s)) = failed_attempts s"
  "failed_attempts (delete_user L a n s) = failed_attempts s"
  "failed_attempts (snd (generate_new_api_key L a n s)) = failed_attempts s"
  "failed_attempts (revoke_api_key L a n k s) = failed_attempts s"
  "failed_attempts (snd (cleanup_expired_sessions L a s)) = failed_attempts s"
  by (simp_all add: create_session_def revoke_session_def create_user_def delete_user_def
        generate_new_api_key_def revoke_api_key_def cleanup_expired_sessions_def Let_def
        save_users_fields save_sessions_fields split: option.split)

lemma resolve_user_failed_attempts:
  "failed_attempts (snd (resolve_user L a req s)) = failed_attempts s"
proof (cases "bearer_token (authorization req)")
  case (Some token)
  then show ?thesis by (simp add: resolve_user_def Let_def split: option.split)
next
  case None
  show ?thesis
  proof (cases "session_cookie req")
    case n: None
    then show ?thesis using None by (simp add: resolve_user_def)
  next
    case (Some c)
    let ?ip = "case client_host req of None \<Rightarrow> ''unknown'' | Some h \<Rightarrow> h"
    let ?s1 = "s\<lparr>trace := trace s @ [SessionTried c]\<rparr>"
    have "c \<noteq> [] \<Longrightarrow> snd (resolve_user L a req s) = snd (validate_session L a c ?ip ?s1)"
      using None Some by (simp add: resolve_user_def Let_def split: prod.splits option.splits)
    then show ?thesis
      using None Some validate_session_other(3) [of L a c ?ip ?s1]
      by (cases "c = []") (simp_all add: resolve_user_def)
  qed
qed

lemma wrapper_failed_attempts:
  "failed_attempts (snd (wrapper L a perms req s)) = failed_attempts s"
proof -
  obtain r s1 where rs: "resolve_user L a req s = (r, s1)"
    by (cases "resolve_user L a req s")
  have f1: "failed_attempts s1 = failed_attempts s"
    using resolve_user_failed_attempts [of L a req s] by (simp add: rs)
  show ?thesis
  proof (cases r)
    case None
    then show ?thesis by (simp add: wrapper_def rs f1)
  next
    case (Some u)
    obtain b s2 where c: "check_rate_limit a u (url_path req) s1 = (b, s2)"
      by (cases "check_rate_limit a u (url_path req) s1")
    have "failed_attempts s2 = failed_attempts s1"
      using check_rate_limit_fields(3) [of a u "url_path req" s1] by (simp add: c)
    then show ?thesis
      by (cases b) (simp_all add: wrapper_def rs Some c f1)
  qed
qed

lemma step_failed_attempts:
  assumes "\<not> active_user s ident"
  shows "map_of (failed_attempts (snd (step L a c s))) ident = map_of (failed_attempts s) ident"
proof (cases c)
  case (AuthenticateUser n p)
  then show ?thesis using assms
    by (simp del: step.simps add: snd_step authenticate_user_failed_attempts)
next
  case (ValidateSession k ip)
  then show ?thesis by (simp del: step.simps add: snd_step validate_session_other)
next
  case (CheckRateLimit u e)
  then show ?thesis by (simp del: step.simps add: snd_step check_rate_limit_fields)
next
  case (Request perms req)
  then show ?thesis by (simp del: step.simps add: snd_step wrapper_failed_attempts)
qed (simp_all del: step.simps add: snd_step other_failed_attempts)

lemma run_failed_attempts:
  "never_active L ident cs s \<Longrightarrow>
   map_of (failed_attempts (run L cs s)) ident = map_of (failed_attempts s) ident"
proof (induction cs arbitrary: s)
  case Nil
  then show ?case by simp
next
  case (Cons p cs)
  obtain a c where p: "p = (a, c)" by (cases p)
  from Cons.prems have na: "\<not> active_user s ident"
    and rest: "never_active L ident cs (snd (step L a c s))"
    by (simp_all add: p)
  have "map_of (failed_attempts (run L cs (snd (step L a c s)))) ident =
        map_of (failed_attempts (snd (step L a c s))) ident"
    using rest by (rule Cons.IH)
  also have "\<dots> = map_of (failed_attempts s) ident"
    using na by (rule step_failed_attempts)
  finally show ?case by (simp add: p)
qed






lemma bearer_token_of: "bearer_token (Some (''Bearer '' @ token)) = Some token"
  by (simp add: bearer_token_def)

lemma authenticate_trace:
  "authenticate_jwt L a token (s\<lparr>trace := tr\<rparr>) = authenticate_jwt L a token s"
  "authenticate_api_key token (s\<lparr>trace := tr\<rparr>) = authenticate_api_key token s"
  by (simp_all add: authenticate_jwt_def authenticate_api_key_def split: sum.split option.split)

lemma resolve_user_bearer:
  assumes "authorization req = Some (''Bearer '' @ token)"
  shows "resolve_user L a req s =
     (case authenticate_jwt L a token s of
        Some u \<Rightarrow> (Some u, s\<lparr>trace := trace s @ [TokenTried token]\<rparr>)
      | None \<Rightarrow> (authenticate_api_key token s,
                 s\<lparr>trace := trace s @ [TokenTried token, KeyTried token]\<rparr>))"
  using assms
  by (simp add: resolve_user_def bearer_token_of authenticate_trace Let_def del: append.simps
        split: option.split)

lemma check_rate_limit_trace:
  "trace (snd (check_rate_limit a u e s)) = trace s"
  by (simp add: check_rate_limit_def Let_def)

lemma wrapper_cases:
  "wrapper L a perms req s =
     (case fst (resolve_user L a req s) of
        None \<Rightarrow> (Inl (HTTPException 401 ''Authentication required''), snd (resolve_user L a req s))
      | Some u \<Rightarrow>
          if perms \<noteq> [] \<and> \<not> list_ex (\<lambda>perm. perm \<in> set (permissions u)) perms
          then (Inl (HTTPException 403 ''Insufficient permissions''), snd (resolve_user L a req s))
          else if fst (check_rate_limit a u (url_path req) (snd (resolve_user L a req s)))
          then (Inr u, snd (check_rate_limit a u (url_path req) (snd (resolve_user L a req s))))
          else (Inl (HTTPException 429 ''Rate limit exceeded''),
                snd (check_rate_limit a u (url_path req) (snd (resolve_user L a req s)))))"
  by (simp add: wrapper_def case_prod_unfold split: option.split bool.split)

lemma save_raises:
  "io_raises a \<and> raises_at a = BeforeOpen \<Longrightarrow> save_users L a s = s"
  "io_raises a \<and> raises_at a = BeforeOpen \<Longrightarrow> save_sessions L a s = s"
  by (simp_all add: save_users_def save_sessions_def split: sum.split)

lemma in_memory_fields:
  "in_memory s = in_memory t \<longleftrightarrow>
     users s = users t \<and> sessions s = sessions t \<and> rate_limits s = rate_limits t
     \<and> failed_attempts s = failed_attempts t \<and> trace s = trace t"
  by (simp add: in_memory_def)

lemma in_memory_save:
  "in_memory (save_users L a s) = in_memory s"
  "in_memory (save_sessions L a s) = in_memory s"
  by (simp_all add: in_memory_def save_users_fields save_sessions_fields)

lemma mem_authenticate_user:
  assumes "in_memory s = in_memory t"
  shows "fst (authenticate_user L (a\<lparr>io_raises := b, raises_at := w\<rparr>) n p s) = fst (authenticate_user L a n p t)
       \<and> in_memory (snd (authenticate_user L (a\<lparr>io_raises := b, raises_at := w\<rparr>) n p s)) =
           in_memory (snd (authenticate_user L a n p t))"
  using assms
  by (simp add: in_memory_fields authenticate_user_def Let_def save_users_fields
        record_failed_attempt_def timestamps_def split: option.split)

lemma mem_create_session:
  assumes "in_memory s = in_memory t"
  shows "fst (create_session L (a\<lparr>io_raises := b, raises_at := w\<rparr>) u ip agent s) = fst (create_session L a u ip agent t)
       \<and> in_memory (snd (create_session L (a\<lparr>io_raises := b, raises_at := w\<rparr>) u ip agent s)) =
           in_memory (snd (create_session L a u ip agent t))"
  using assms
  by (simp add: in_memory_fields create_session_def Let_def save_sessions_fields)

lemma mem_validate_session:
  assumes "in_memory s = in_memory t"
  shows "fst (validate_session L (a\<lparr>io_raises := b, raises_at := w\<rparr>) k ip s) = fst (validate_session L a k ip t)
       \<and> in_memory (snd (validate_session L (a\<lparr>io_raises := b, raises_at := w\<rparr>) k ip s)) =
           in_memory (snd (validate_session L a k ip t))"
  using assms
  by (simp add: in_memory_fields validate_session_def save_sessions_fields split: option.split)

lemma mem_revoke_session:
  assumes "in_memory s = in_memory t"
  shows "in_memory (revoke_session L (a\<lparr>io_raises := b, raises_at := w\<rparr>) k s) = in_memory (revoke_session L a k t)"
  using assms
  by (simp add: in_memory_fields revoke_session_def save_sessions_fields split: option.split)

lemma mem_check_rate_limit:
  assumes "in_memory s = in_memory t"
  shows "fst (check_rate_limit (a\<lparr>io_raises := b, raises_at := w\<rparr>) u e s) = fst (check_rate_limit a u e t)
       \<and> in_memory (snd (check_rate_limit (a\<lparr>io_raises := b, raises_at := w\<rparr>) u e s)) =
           in_memory (snd (check_rate_limit a u e t))"
  using assms
  by (simp add: in_memory_fields check_rate_limit_def Let_def timestamps_def)

lemma mem_create_user:
  assumes "in_memory s = in_memory t"
  shows "fst (create_user L (a\<lparr>io_raises := b, raises_at := w\<rparr>) n p perms s) = fst (create_user L a n p perms t)
       \<and> in_memory (snd (create_user L (a\<lparr>io_raises := b, raises_at := w\<rparr>) n p perms s)) =
           in_memory (snd (create_user L a n p perms t))"
  using assms
  by (simp add: in_memory_fields create_user_def Let_def save_users_fields has_key_def
        generate_api_key_def)

lemma mem_delete_user:
  assumes "in_memory s = in_memory t"
  shows "in_memory (delete_user L (a\<lparr>io_raises := b, raises_at := w\<rparr>) n s) = in_memory (delete_user L a n t)"
  using assms
  by (simp add: in_memory_fields delete_user_def Let_def save_users_fields save_sessions_fields
        has_key_def)

lemma mem_generate_new_api_key:
  assumes "in_memory s = in_memory t"
  shows "fst (generate_new_api_key L (a\<lparr>io_raises := b, raises_at := w\<rparr>) n s) = fst (generate_new_api_key L a n t)
       \<and> in_memory (snd (generate_new_api_key L (a\<lparr>io_raises := b, raises_at := w\<rparr>) n s)) =
           in_memory (snd (generate_new_api_key L a n t))"
  using assms
  by (simp add: in_memory_fields generate_new_api_key_def Let_def save_users_fields
        generate_api_key_def split: option.split)

lemma mem_revoke_api_key:
  assumes "in_memory s = in_memory t"
  shows "in_memory (revoke_api_key L (a\<lparr>io_raises := b, raises_at := w\<rparr>) n k s) = in_memory (revoke_api_key L a n k t)"
  using assms
  by (simp add: in_memory_fields revoke_api_key_def Let_def save_users_fields split: option.split)

lemma mem_cleanup:
  assumes "in_memory s = in_memory t"
  shows "fst (cleanup_expired_sessions L (a\<lparr>io_raises := b, raises_at := w\<rparr>) s) = fst (cleanup_expired_sessions L a t)
       \<and> in_memory (snd (cleanup_expired_sessions L (a\<lparr>io_raises := b, raises_at := w\<rparr>) s)) =
           in_memory (snd (cleanup_expired_sessions L a t))"
  using assms
  by (simp add: in_memory_fields cleanup_expired_sessions_def Let_def save_sessions_fields)

lemma mem_authenticate_api:
  assumes "in_memory s = in_memory t"
  shows "authenticate_jwt L (a\<lparr>io_raises := b, raises_at := w\<rparr>) token s = authenticate_jwt L a token t"
    and "authenticate_api_key token s = authenticate_api_key token t"
  using assms
  by (simp_all add: in_memory_fields authenticate_jwt_def authenticate_api_key_def
        split: sum.split option.split)

lemma mem_resolve_user:
  assumes "in_memory s = in_memory t"
  shows "fst (resolve_user L (a\<lparr>io_raises := b, raises_at := w\<rparr>) req s) = fst (resolve_user L a req t)
       \<and> in_memory (snd (resolve_user L (a\<lparr>io_raises := b, raises_at := w\<rparr>) req s)) =
           in_memory (snd (resolve_user L a req t))"
proof (cases "bearer_token (authorization req)")
  case (Some token)
  show ?thesis
    using Some assms mem_authenticate_api [OF assms]
    by (simp add: resolve_user_def Let_def authenticate_trace in_memory_fields
          split: option.split)
next
  case None
  show ?thesis
  proof (cases "session_cookie req")
    case n: None
    then show ?thesis using None assms by (simp add: resolve_user_def)
  next
    case (Some c)
    let ?ip = "case client_host req of None \<Rightarrow> ''unknown'' | Some h \<Rightarrow> h"
    have m: "in_memory (s\<lparr>trace := trace s @ [SessionTried c]\<rparr>) =
             in_memory (t\<lparr>trace := trace t @ [SessionTried c]\<rparr>)"
      using assms by (simp add: in_memory_fields)
    note v = mem_validate_session [OF m, where L=L and a=a and b=b and w=w and k=c and ip="?ip"]
    obtain r1 s1 where v1: "validate_session L (a\<lparr>io_raises := b, raises_at := w\<rparr>) c ?ip
        (s\<lparr>trace := trace s @ [SessionTried c]\<rparr>) = (r1, s1)"
      by (cases "validate_session L (a\<lparr>io_raises := b, raises_at := w\<rparr>) c ?ip (s\<lparr>trace := trace s @ [SessionTried c]\<rparr>)")
    obtain r2 s2 where v2: "validate_session L a c ?ip
        (t\<lparr>trace := trace t @ [SessionTried c]\<rparr>) = (r2, s2)"
      by (cases "validate_session L a c ?ip (t\<lparr>trace := trace t @ [SessionTried c]\<rparr>)")
    from v have rr: "r1 = r2" and ss: "in_memory s1 = in_memory s2"
      by (simp_all add: v1 v2)
    from ss have us: "users s1 = users s2"
      by (simp add: in_memory_fields)
    show ?thesis
      using None Some assms rr ss us
      by (cases "c = []"; cases r2) (simp_all add: resolve_user_def v1 v2)
  qed
qed

lemma mem_wrapper:
  assumes "in_memory s = in_memory t"
  shows "fst (wrapper L (a\<lparr>io_raises := b, raises_at := w\<rparr>) perms req s) = fst (wrapper L a perms req t)
       \<and> in_memory (snd (wrapper L (a\<lparr>io_raises := b, raises_at := w\<rparr>) perms req s)) =
           in_memory (snd (wrapper L a perms req t))"
proof -
  note r = mem_resolve_user [OF assms, where L=L and a=a and b=b and w=w and req=req]
  from r have m: "in_memory (snd (resolve_user L (a\<lparr>io_raises := b, raises_at := w\<rparr>) req s)) =
      in_memory (snd (resolve_user L a req t))"
    by simp
  show ?thesis
  proof (cases "fst (resolve_user L a req t)")
    case None
    then show ?thesis using r by (simp add: wrapper_cases)
  next
    case (Some u)
    note c = mem_check_rate_limit [OF m, where a=a and b=b and w=w and u=u and e="url_path req"]
    show ?thesis using r Some c by (simp add: wrapper_cases)
  qed
qed

lemma mem_step:
  assumes "in_memory s = in_memory t"
  shows "fst (step L (a\<lparr>io_raises := b, raises_at := w\<rparr>) c s) = fst (step L a c t)
       \<and> in_memory (snd (step L (a\<lparr>io_raises := b, raises_at := w\<rparr>) c s)) = in_memory (snd (step L a c t))"
proof (cases c)
  case (AuthenticateUser n p)
  then show ?thesis using mem_authenticate_user [OF assms]
    by (simp add: case_prod_unfold)
next
  case (CreateSession u ip agent)
  then show ?thesis using mem_create_session [OF assms]
    by (simp add: case_prod_unfold)
next
  case (ValidateSession k ip)
  then show ?thesis using mem_validate_session [OF assms]
    by (simp add: case_prod_unfold)
next
  case (RevokeSession k)
  then show ?thesis using mem_revoke_session [OF assms] by simp
next
  case (CheckRateLimit u e)
  then show ?thesis using mem_check_rate_limit [OF assms]
    by (simp add: case_prod_unfold)
next
  case (CreateUser n p perms)
  then show ?thesis using mem_create_user [OF assms]
    by (simp add: case_prod_unfold split: sum.split)
next
  case (DeleteUser n)
  then show ?thesis using mem_delete_user [OF assms] by simp
next
  case (GenerateNewApiKey n)
  then show ?thesis using mem_generate_new_api_key [OF assms]
    by (simp add: case_prod_unfold split: sum.split)
next
  case (RevokeApiKey n k)
  then show ?thesis using mem_revoke_api_key [OF assms] by simp
next
  case CleanupExpiredSessions
  then show ?thesis using mem_cleanup [OF assms]
    by (simp add: case_prod_unfold)
next
  case (Request perms req)
  then show ?thesis using mem_wrapper [OF assms]
    by (simp add: case_prod_unfold split: sum.split)
qed

lemma files_validate_session:
  "io_raises a \<and> raises_at a = BeforeOpen \<Longrightarrow>
   users_file (snd (validate_session L a k ip s)) = users_file s
   \<and> sessions_file (snd (validate_session L a k ip s)) = sessions_file s"
  by (simp add: validate_session_def save_raises split: option.split)

lemma files_check_rate_limit:
  "users_file (snd (check_rate_limit a u e s)) = users_file s
   \<and> sessions_file (snd (check_rate_limit a u e s)) = sessions_file s"
  by (simp add: check_rate_limit_def Let_def)

lemma files_resolve_user:
  assumes "io_raises a \<and> raises_at a = BeforeOpen"
  shows "users_file (snd (resolve_user L a req s)) = users_file s
       \<and> sessions_file (snd (resolve_user L a req s)) = sessions_file s"
proof (cases "bearer_token (authorization req)")
  case (Some token)
  then show ?thesis by (simp add: resolve_user_def Let_def split: option.split)
next
  case None
  show ?thesis
  proof (cases "session_cookie req")
    case n: None
    then show ?thesis using None by (simp add: resolve_user_def)
  next
    case (Some c)
    let ?ip = "case client_host req of None \<Rightarrow> ''unknown'' | Some h \<Rightarrow> h"
    let ?s1 = "s\<lparr>trace := trace s @ [SessionTried c]\<rparr>"
    have "c \<noteq> [] \<Longrightarrow> snd (resolve_user L a req s) = snd (validate_session L a c ?ip ?s1)"
      using None Some by (simp add: resolve_user_def Let_def split: prod.splits option.splits)
    then show ?thesis
      using None Some files_validate_session [OF assms, of L c ?ip ?s1]
      by (cases "c = []") (simp_all add: resolve_user_def)
  qed
qed

lemma files_wrapper:
  assumes "io_raises a \<and> raises_at a = BeforeOpen"
  shows "users_file (snd (wrapper L a perms req s)) = users_file s
       \<and> sessions_file (snd (wrapper L a perms req s)) = sessions_file s"
  using files_resolve_user [OF assms, of L req s]
  by (simp add: wrapper_cases files_check_rate_limit split: option.split)

lemma files_step:
  assumes "io_raises a \<and> raises_at a = BeforeOpen"
  shows "users_file (snd (step L a c s)) = users_file s
       \<and> sessions_file (snd (step L a c s)) = sessions_file s"
proof (cases c)
  case (AuthenticateUser n p)
  then show ?thesis using assms
    by (simp del: step.simps add: snd_step authenticate_user_def Let_def save_raises
          record_failed_attempt_def split: option.split)
next
  case (CreateSession u ip agent)
  then show ?thesis using assms
    by (simp del: step.simps add: snd_step create_session_def Let_def save_raises)
next
  case (ValidateSession k ip)
  then show ?thesis using assms
    by (simp del: step.simps add: snd_step files_validate_session)
next
  case (RevokeSession k)
  then show ?thesis using assms
    by (simp del: step.simps add: snd_step revoke_session_def save_raises split: option.split)
next
  case (CheckRateLimit u e)
  then show ?thesis
    by (simp del: step.simps add: snd_step files_check_rate_limit)
next
  case (CreateUser n p perms)
  then show ?thesis using assms
    by (simp del: step.simps add: snd_step create_user_def Let_def save_raises)
next
  case (DeleteUser n)
  then show ?thesis using assms
    by (simp del: step.simps add: snd_step delete_user_def Let_def save_raises)
next
  case (GenerateNewApiKey n)
  then show ?thesis using assms
    by (simp del: step.simps add: snd_step generate_new_api_key_def Let_def save_raises
          split: option.split)
next
  case (RevokeApiKey n k)
  then show ?thesis using assms
    by (simp del: step.simps add: snd_step revoke_api_key_def Let_def save_raises
          split: option.split)
next
  case CleanupExpiredSessions
  then show ?thesis using assms
    by (simp del: step.simps add: snd_step cleanup_expired_sessions_def Let_def save_raises)
next
  case (Request perms req)
  then show ?thesis using assms
    by (simp del: step.simps add: snd_step files_wrapper)
qed

section \<open>Session deactivation\<close>

text \<open>
  C9. Once the session stored under an identifier is inactive, no call of the manager
  makes it active again: after any run of calls (password login, session creation,
  validation, revocation, user creation and deletion, key issue and revocation, cleanup,
  rate-limit checks and wrapped requests) the identifier holds an inactive session or
  none (cleanup removes expired records). The session dictionary has each key once, as
  a Python dictionary does, and no call of the run draws the same identifier again from
  \<^verbatim>\<open>secrets.token_urlsafe(32)\<close>: \<^verbatim>\<open>create_session\<close> would store a new record
  under it.
\<close>

theorem deactivation_is_permanent:
  assumes "map_of (sessions s) sid = Some x" and "\<not> session.is_active x"
    and "distinct (map fst (sessions s))" and "\<not> list_ex (issues sid) cs"
  shows "inactive (run L cs s) sid"
proof -
  from assms(1,2) have "inactive s sid"
    by (simp add: inactive_def)
  then show ?thesis
    using assms(3,4) by (rule run_inactive)
qed

theorem deactivation_is_permanent_witness:
  "map_of (sessions (manager0\<lparr>sessions := [(''s1'', session1\<lparr>is_active := False\<rparr>)]\<rparr>)) ''s1''
      = Some (session1\<lparr>is_active := False\<rparr>)
   \<and> \<not> session.is_active (session1\<lparr>is_active := False\<rparr>)
   \<and> distinct (map fst (sessions (manager0\<lparr>sessions := [(''s1'', session1\<lparr>is_active := False\<rparr>)]\<rparr>)))
   \<and> \<not> list_ex (issues ''s1'')
         [(reading 10 10 ''s2'' True, CreateSession bob ''10.0.0.1'' ''curl''),
          (reading 20 20 ''r'' True, ValidateSession ''s1'' ''10.0.0.1''),
          (reading 30 30 ''r'' True, Request [] \<lparr>authorization = None, session_cookie = Some ''s1'',
                                               client_host = None, url_path = ''/chat''\<rparr>)]
   \<and> inactive
        (run lib0
           [(reading 10 10 ''s2'' True, CreateSession bob ''10.0.0.1'' ''curl''),
            (reading 20 20 ''r'' True, ValidateSession ''s1'' ''10.0.0.1''),
            (reading 30 30 ''r'' True, Request [] \<lparr>authorization = None, session_cookie = Some ''s1'',
                                                 client_host = None, url_path = ''/chat''\<rparr>)]
           (manager0\<lparr>sessions := [(''s1'', session1\<lparr>is_active := False\<rparr>)]\<rparr>))
        ''s1''"
proof -
  let ?s = "manager0\<lparr>sessions := [(''s1'', session1\<lparr>is_active := False\<rparr>)]\<rparr>"
  let ?cs = "[(reading 10 10 ''s2'' True, CreateSession bob ''10.0.0.1'' ''curl''),
          (reading 20 20 ''r'' True, ValidateSession ''s1'' ''10.0.0.1''),
          (reading 30 30 ''r'' True, Request [] \<lparr>authorization = None, session_cookie = Some ''s1'',
                                               client_host = None, url_path = ''/chat''\<rparr>)]"
  have h1: "map_of (sessions ?s) ''s1'' = Some (session1\<lparr>is_active := False\<rparr>)" by simp
  have h2: "\<not> session.is_active (session1\<lparr>is_active := False\<rparr>)" by simp
  have h3: "distinct (map fst (sessions ?s))" by simp
  have h4: "\<not> list_ex (issues ''s1'') ?cs" by (simp add: reading_def)
  from deactivation_is_permanent [OF h1 h2 h3 h4, of lib0] h1 h2 h3 h4
  show ?thesis by blast
qed

text \<open>
  C7. Deleting a user who is a key of the user dictionary marks every session whose
  \<^verbatim>\<open>user_id\<close> is that name inactive, so validating such a session fails
  right after the deletion, and after any further run of calls, whatever the time and
  the address of the request. The session dictionary has each key once, and the run
  draws no session identifier equal to the one validated.
\<close>

theorem delete_user_invalidates_sessions:
  assumes "has_key (users s) uname" and "map_of (sessions s) sid = Some x" and "user_id x = uname"
    and "distinct (map fst (sessions s))" and "\<not> list_ex (issues sid) cs"
  shows "map_of (sessions (delete_user L a uname s)) sid = Some (x\<lparr>is_active := False\<rparr>)
       \<and> validate_session L a' sid ip (delete_user L a uname s) = (None, delete_user L a uname s)
       \<and> fst (validate_session L a'' sid ip' (run L cs (delete_user L a uname s))) = None"
proof -
  let ?s' = "delete_user L a uname s"
  have m: "map_of (sessions ?s') sid = Some (x\<lparr>is_active := False\<rparr>)"
    using assms(1,2,3) by (simp add: delete_user_sessions map_of_revoke_sessions_of)
  then have i: "inactive ?s' sid"
    by (simp add: inactive_def)
  have d: "distinct (map fst (sessions ?s'))"
    using assms(4) by (simp add: delete_user_sessions fst_revoke_sessions_of)
  have "inactive (run L cs ?s') sid"
    using i d assms(5) by (rule run_inactive)
  then have "fst (validate_session L a'' sid ip' (run L cs ?s')) = None"
    by (simp add: validate_session_of_inactive)
  with m i show ?thesis
    by (simp add: validate_session_of_inactive)
qed

theorem delete_user_invalidates_sessions_witness:
  "has_key (users manager0) ''bob'' \<and> map_of (sessions manager0) ''s1'' = Some session1
   \<and> user_id session1 = ''bob'' \<and> distinct (map fst (sessions manager0))
   \<and> \<not> list_ex (issues ''s1'')
         [(reading 10 10 ''s2'' True, CreateUser ''bob'' ''builder'' [''models'']),
          (reading 20 20 ''s3'' True, CreateSession bob ''10.0.0.1'' ''curl'')]
   \<and> map_of (sessions (delete_user lib0 (reading 5 5 ''r'' True) ''bob'' manager0)) ''s1''
       = Some (session1\<lparr>is_active := False\<rparr>)
   \<and> validate_session lib0 (reading 6 6 ''r'' True) ''s1'' ''10.0.0.1''
        (delete_user lib0 (reading 5 5 ''r'' True) ''bob'' manager0)
       = (None, delete_user lib0 (reading 5 5 ''r'' True) ''bob'' manager0)
   \<and> fst (validate_session lib0 (reading 30 30 ''r'' True) ''s1'' ''10.0.0.1''
        (run lib0
           [(reading 10 10 ''s2'' True, CreateUser ''bob'' ''builder'' [''models'']),
            (reading 20 20 ''s3'' True, CreateSession bob ''10.0.0.1'' ''curl'')]
           (delete_user lib0 (reading 5 5 ''r'' True) ''bob'' manager0))) = None"
proof -
  let ?cs = "[(reading 10 10 ''s2'' True, CreateUser ''bob'' ''builder'' [''models'']),
          (reading 20 20 ''s3'' True, CreateSession bob ''10.0.0.1'' ''curl'')]"
  have h1: "has_key (users manager0) ''bob''" by (simp add: has_key_def manager0_def)
  have h2: "map_of (sessions manager0) ''s1'' = Some session1" by (simp add: manager0_def)
  have h3: "user_id session1 = ''bob''" by (simp add: session1_def)
  have h4: "distinct (map fst (sessions manager0))" by (simp add: manager0_def)
  have h5: "\<not> list_ex (issues ''s1'') ?cs" by (simp add: reading_def)
  from delete_user_invalidates_sessions [OF h1 h2 h3 h4 h5,
      of lib0 "reading 5 5 ''r'' True" "reading 6 6 ''r'' True" "''10.0.0.1''"
         "reading 30 30 ''r'' True" "''10.0.0.1''"] h1 h2 h3 h4 h5
  show ?thesis by blast
qed

section \<open>Session validation\<close>

text \<open>
  C4, as stated: validation succeeds if and only if the session exists, is active and the
  current time is strictly less than \<^verbatim>\<open>expires_at\<close>. The source tests
  \<^verbatim>\<open>datetime.utcnow() > session.expires_at\<close>, so at the instant \<^verbatim>\<open>expires_at\<close>
  itself the session still validates, as \<^verbatim>\<open>cleanup_expired_sessions\<close> also keeps
  it: the statement fails for a session that expires at 100, validated at 100.
\<close>

theorem validate_session_boundary_counterexample:
  "\<not> (\<forall>L a sid ip s.
        (fst (validate_session L a sid ip s) \<noteq> None) =
        (\<exists>x. map_of (sessions s) sid = Some x \<and> session.is_active x \<and> utcnow a < expires_at x))"
proof
  assume claim: "\<forall>L a sid ip s.
        (fst (validate_session L a sid ip s) \<noteq> None) =
        (\<exists>x. map_of (sessions s) sid = Some x \<and> session.is_active x \<and> utcnow a < expires_at x)"
  have "fst (validate_session lib0 (reading 100 0 ''r'' True) ''s1'' ''10.0.0.1'' manager0) \<noteq> None"
    by (simp add: validate_session_def manager0_def session1_def reading_def)
  with claim have "\<exists>x. map_of (sessions manager0) ''s1'' = Some x \<and> session.is_active x
      \<and> utcnow (reading 100 0 ''r'' True) < expires_at x"
    by blast
  then show False
    by (simp add: manager0_def session1_def reading_def)
qed

text \<open>
  C4, amended. \<^verbatim>\<open>validate_session\<close> returns the stored session exactly when it
  exists, is active, the current time is not after \<^verbatim>\<open>expires_at\<close> and, when strict
  session-IP binding is on, the recorded address is the address of the request;
  otherwise it returns nothing. A call made after \<^verbatim>\<open>expires_at\<close> leaves the session
  inactive, and validation of that identifier fails after any further run of calls, at
  any time and from any address. The session dictionary has each key once, and the run
  draws no session identifier equal to the one validated.
\<close>

theorem validate_session_iff:
  assumes "distinct (map fst (sessions s))" and "\<not> list_ex (issues sid) cs"
  shows "fst (validate_session L a sid ip s) =
           (case map_of (sessions s) sid of
              None \<Rightarrow> None
            | Some x \<Rightarrow>
                if session.is_active x \<and> utcnow a \<le> expires_at x
                   \<and> (strict_session_ip a \<longrightarrow> ip_address x = ip)
                then Some x else None)
       \<and> (\<forall>x. map_of (sessions s) sid = Some x \<and> expires_at x < utcnow a \<longrightarrow>
              inactive (snd (validate_session L a sid ip s)) sid
              \<and> fst (validate_session L a' sid ip'
                        (run L cs (snd (validate_session L a sid ip s)))) = None)"
proof (intro conjI allI impI)
  show "fst (validate_session L a sid ip s) =
           (case map_of (sessions s) sid of
              None \<Rightarrow> None
            | Some x \<Rightarrow>
                if session.is_active x \<and> utcnow a \<le> expires_at x
                   \<and> (strict_session_ip a \<longrightarrow> ip_address x = ip)
                then Some x else None)"
    by (cases "map_of (sessions s) sid") (auto simp: validate_session_def)
next
  fix x
  assume h: "map_of (sessions s) sid = Some x \<and> expires_at x < utcnow a"
  let ?s' = "snd (validate_session L a sid ip s)"
  have "sessions ?s' = sessions s \<and> \<not> session.is_active x
        \<or> sessions ?s' = AList.update sid (x\<lparr>is_active := False\<rparr>) (sessions s)"
    using h by (simp add: validate_session_def save_sessions_fields)
  then show i: "inactive ?s' sid"
    using h by (auto simp: inactive_def update_conv)
  have d: "distinct (map fst (sessions ?s'))"
    using assms(1) by (rule validate_session_distinct)
  have "inactive (run L cs ?s') sid"
    using i d assms(2) by (rule run_inactive)
  then show "fst (validate_session L a' sid ip' (run L cs ?s')) = None"
    by (simp add: validate_session_of_inactive)
qed

theorem validate_session_iff_witness:
  "distinct (map fst (sessions manager0))
   \<and> \<not> list_ex (issues ''s1'') [(reading 150 0 ''s2'' True, CreateSession bob ''10.0.0.1'' ''curl'')]
   \<and> map_of (sessions manager0) ''s1'' = Some session1
   \<and> expires_at session1 < utcnow (reading 101 0 ''r'' True)
   \<and> fst (validate_session lib0 (reading 100 0 ''r'' True) ''s1'' ''10.0.0.9'' manager0) = Some session1
   \<and> fst (validate_session lib0 (reading 101 0 ''r'' True) ''s1'' ''10.0.0.1'' manager0) = None
   \<and> inactive (snd (validate_session lib0 (reading 101 0 ''r'' True) ''s1'' ''10.0.0.1'' manager0)) ''s1''
   \<and> fst (validate_session lib0 (reading 50 0 ''r'' True) ''s1'' ''10.0.0.1''
        (run lib0 [(reading 150 0 ''s2'' True, CreateSession bob ''10.0.0.1'' ''curl'')]
           (snd (validate_session lib0 (reading 101 0 ''r'' True) ''s1'' ''10.0.0.1'' manager0)))) = None"
proof -
  let ?cs = "[(reading 150 0 ''s2'' True, CreateSession bob ''10.0.0.1'' ''curl'')]"
  have h1: "distinct (map fst (sessions manager0))" by (simp add: manager0_def)
  have h2: "\<not> list_ex (issues ''s1'') ?cs" by (simp add: reading_def)
  have h3: "map_of (sessions manager0) ''s1'' = Some session1" by (simp add: manager0_def)
  have h4: "expires_at session1 < utcnow (reading 101 0 ''r'' True)"
    by (simp add: session1_def reading_def)
  have h5: "session.is_active session1 \<and> utcnow (reading 100 0 ''r'' True) \<le> expires_at session1
      \<and> \<not> strict_session_ip (reading 100 0 ''r'' True)"
    by (simp add: session1_def reading_def)
  note t1 = validate_session_iff [OF h1 h2, of lib0 "reading 100 0 ''r'' True" "''10.0.0.9''"]
  note t2 = validate_session_iff [OF h1 h2, of lib0 "reading 101 0 ''r'' True" "''10.0.0.1''"
      "reading 50 0 ''r'' True" "''10.0.0.1''"]
  have a: "fst (validate_session lib0 (reading 100 0 ''r'' True) ''s1'' ''10.0.0.9'' manager0) = Some session1"
    using t1 h3 h5 by simp
  have b: "fst (validate_session lib0 (reading 101 0 ''r'' True) ''s1'' ''10.0.0.1'' manager0) = None"
    using t2 h3 h4 by simp
  from t2 h3 h4 a b h1 h2 show ?thesis by blast
qed

section \<open>Password login and lockout\<close>

text \<open>
  C1. With five or more failures recorded within the trailing hour, the next password
  login should be denied as locked, even with the right password, without calling the
  hash comparison. \<^verbatim>\<open>authenticate_user\<close> records the failures but never calls
  \<^verbatim>\<open>is_blocked\<close>, and nothing else in the repository does. After five failed logins
  at seconds 10 to 50, all within the hour at second 60 and reported by
  \<^verbatim>\<open>is_blocked\<close>, a sixth login at second 60 with the right password calls
  \<^verbatim>\<open>pwd_context.verify\<close> a sixth time and returns the user.
\<close>

theorem locked_identity_still_logs_in:
  "is_blocked
     (run lib0
        [(reading 0 10 ''r'' True, AuthenticateUser ''alice'' ''guess''),
         (reading 0 20 ''r'' True, AuthenticateUser ''alice'' ''guess''),
         (reading 0 30 ''r'' True, AuthenticateUser ''alice'' ''guess''),
         (reading 0 40 ''r'' True, AuthenticateUser ''alice'' ''guess''),
         (reading 0 50 ''r'' True, AuthenticateUser ''alice'' ''guess'')] manager0)
     ''alice''
   \<and> filter (\<lambda>attempt. time_now (reading 60 60 ''r'' True) - attempt < 3600)
        (timestamps
           (failed_attempts
              (run lib0
                 [(reading 0 10 ''r'' True, AuthenticateUser ''alice'' ''guess''),
                  (reading 0 20 ''r'' True, AuthenticateUser ''alice'' ''guess''),
                  (reading 0 30 ''r'' True, AuthenticateUser ''alice'' ''guess''),
                  (reading 0 40 ''r'' True, AuthenticateUser ''alice'' ''guess''),
                  (reading 0 50 ''r'' True, AuthenticateUser ''alice'' ''guess'')] manager0))
           ''alice'')
       = [10, 20, 30, 40, 50]
   \<and> fst (authenticate_user lib0 (reading 60 60 ''r'' True) ''alice'' ''wonderland''
        (run lib0
           [(reading 0 10 ''r'' True, AuthenticateUser ''alice'' ''guess''),
            (reading 0 20 ''r'' True, AuthenticateUser ''alice'' ''guess''),
            (reading 0 30 ''r'' True, AuthenticateUser ''alice'' ''guess''),
            (reading 0 40 ''r'' True, AuthenticateUser ''alice'' ''guess''),
            (reading 0 50 ''r'' True, AuthenticateUser ''alice'' ''guess'')] manager0))
       = Some (alice\<lparr>last_login := Some (PyDatetime 60)\<rparr>)
   \<and> trace (snd (authenticate_user lib0 (reading 60 60 ''r'' True) ''alice'' ''wonderland''
        (run lib0
           [(reading 0 10 ''r'' True, AuthenticateUser ''alice'' ''guess''),
            (reading 0 20 ''r'' True, AuthenticateUser ''alice'' ''guess''),
            (reading 0 30 ''r'' True, AuthenticateUser ''alice'' ''guess''),
            (reading 0 40 ''r'' True, AuthenticateUser ''alice'' ''guess''),
            (reading 0 50 ''r'' True, AuthenticateUser ''alice'' ''guess'')] manager0)))
       = [HashVerify ''alice'', HashVerify ''alice'', HashVerify ''alice'',
          HashVerify ''alice'', HashVerify ''alice'', HashVerify ''alice'']"
  by (simp add: is_blocked_def timestamps_def reading_def authenticate_user_def manager0_def
        alice_def lib0_def Let_def record_failed_attempt_def save_users_fields)

text \<open>
  C10. A password login for a name that is not a key of the user dictionary, or whose
  user is inactive, returns nothing and leaves the whole manager, the failed-attempt
  lists included, as it was. The failed-attempt lists change only when the user exists,
  is active and the password does not verify. So an identity with no list at the start
  that is the name of an active user in no state of a run is not reported blocked at
  its end.
\<close>

theorem failures_recorded_only_on_mismatch:
  "(\<not> active_user s uname \<longrightarrow> authenticate_user L a uname password s = (None, s))
   \<and> (failed_attempts (snd (authenticate_user L a uname password s)) \<noteq> failed_attempts s \<longrightarrow>
        (\<exists>u. map_of (users s) uname = Some u \<and> user.is_active u
             \<and> \<not> pwd_verify L password (password_hash u)))
   \<and> (map_of (failed_attempts s) ident = None \<and> never_active L ident cs s \<longrightarrow>
        \<not> is_blocked (run L cs s) ident)"
proof (intro conjI impI)
  assume "\<not> active_user s uname"
  then show "authenticate_user L a uname password s = (None, s)"
    by (cases "map_of (users s) uname") (simp_all add: authenticate_user_def active_user_def)
next
  assume ch: "failed_attempts (snd (authenticate_user L a uname password s)) \<noteq> failed_attempts s"
  show "\<exists>u. map_of (users s) uname = Some u \<and> user.is_active u
             \<and> \<not> pwd_verify L password (password_hash u)"
  proof (cases "map_of (users s) uname")
    case None
    then show ?thesis using ch by (simp add: authenticate_user_def)
  next
    case (Some u)
    then show ?thesis using ch
      by (cases "user.is_active u"; cases "pwd_verify L password (password_hash u)")
         (simp_all add: authenticate_user_def Let_def save_users_fields)
  qed
next
  assume "map_of (failed_attempts s) ident = None \<and> never_active L ident cs s"
  then have "map_of (failed_attempts (run L cs s)) ident = None"
    by (simp add: run_failed_attempts)
  then show "\<not> is_blocked (run L cs s) ident"
    by (simp add: is_blocked_def)
qed

theorem failures_recorded_only_on_mismatch_witness:
  "\<not> active_user manager0 ''mallory''
   \<and> authenticate_user lib0 (reading 5 5 ''r'' True) ''mallory'' ''guess'' manager0 = (None, manager0)
   \<and> failed_attempts (snd (authenticate_user lib0 (reading 5 5 ''r'' True) ''alice'' ''guess'' manager0))
        \<noteq> failed_attempts manager0
   \<and> (\<exists>u. map_of (users manager0) ''alice'' = Some u \<and> user.is_active u
           \<and> \<not> pwd_verify lib0 ''guess'' (password_hash u))
   \<and> map_of (failed_attempts manager0) ''mallory'' = None
   \<and> never_active lib0 ''mallory''
        [(reading 1 1 ''r'' True, AuthenticateUser ''mallory'' ''guess''),
         (reading 2 2 ''r'' True, AuthenticateUser ''mallory'' ''guess''),
         (reading 3 3 ''r'' True, AuthenticateUser ''alice'' ''guess'')] manager0
   \<and> \<not> is_blocked
        (run lib0
           [(reading 1 1 ''r'' True, AuthenticateUser ''mallory'' ''guess''),
            (reading 2 2 ''r'' True, AuthenticateUser ''mallory'' ''guess''),
            (reading 3 3 ''r'' True, AuthenticateUser ''alice'' ''guess'')] manager0)
        ''mallory''"
proof -
  let ?cs = "[(reading 1 1 ''r'' True, AuthenticateUser ''mallory'' ''guess''),
         (reading 2 2 ''r'' True, AuthenticateUser ''mallory'' ''guess''),
         (reading 3 3 ''r'' True, AuthenticateUser ''alice'' ''guess'')]"
  have h1: "\<not> active_user manager0 ''mallory''"
    by (simp add: active_user_def manager0_def)
  have h2: "failed_attempts (snd (authenticate_user lib0 (reading 5 5 ''r'' True) ''alice'' ''guess'' manager0))
        \<noteq> failed_attempts manager0"
    by (simp add: authenticate_user_def manager0_def alice_def lib0_def Let_def
          record_failed_attempt_def timestamps_def)
  have h3: "map_of (failed_attempts manager0) ''mallory'' = None"
    by (simp add: manager0_def)
  have h4: "never_active lib0 ''mallory'' ?cs manager0"
    by (simp add: active_user_def authenticate_user_def manager0_def alice_def lib0_def Let_def
          record_failed_attempt_def)
  note t = failures_recorded_only_on_mismatch
  from t [of manager0 "''mallory''" lib0 "reading 5 5 ''r'' True" "''guess''"] h1
  have a: "authenticate_user lib0 (reading 5 5 ''r'' True) ''mallory'' ''guess'' manager0 = (None, manager0)"
    by blast
  from t [of manager0 "''alice''" lib0 "reading 5 5 ''r'' True" "''guess''"] h2
  have b: "\<exists>u. map_of (users manager0) ''alice'' = Some u \<and> user.is_active u
           \<and> \<not> pwd_verify lib0 ''guess'' (password_hash u)"
    by blast
  from t [of manager0 "''alice''" lib0 "reading 5 5 ''r'' True" "''guess''" "''mallory''" ?cs] h3 h4
  have c: "\<not> is_blocked (run lib0 ?cs manager0) ''mallory''"
    by blast
  from h1 a h2 b h3 h4 c show ?thesis by blast
qed

text \<open>
  C6. \<^verbatim>\<open>is_blocked\<close> takes no time and evicts nothing: it counts the list as the
  last recorded failure left it. After five failed logins at seconds 10 to 50 the
  identity is reported blocked in every later state that records no further failure,
  also when read at second 100000, where none of the five lies in the trailing hour.
\<close>

theorem is_blocked_counts_stale_attempts:
  "failed_attempts
     (run lib0
        [(reading 0 10 ''r'' True, AuthenticateUser ''alice'' ''guess''),
         (reading 0 20 ''r'' True, AuthenticateUser ''alice'' ''guess''),
         (reading 0 30 ''r'' True, AuthenticateUser ''alice'' ''guess''),
         (reading 0 40 ''r'' True, AuthenticateUser ''alice'' ''guess''),
         (reading 0 50 ''r'' True, AuthenticateUser ''alice'' ''guess'')] manager0)
     = [(''alice'', [10, 20, 30, 40, 50])]
   \<and> is_blocked
        (run lib0
           [(reading 0 10 ''r'' True, AuthenticateUser ''alice'' ''guess''),
            (reading 0 20 ''r'' True, AuthenticateUser ''alice'' ''guess''),
            (reading 0 30 ''r'' True, AuthenticateUser ''alice'' ''guess''),
            (reading 0 40 ''r'' True, AuthenticateUser ''alice'' ''guess''),
            (reading 0 50 ''r'' True, AuthenticateUser ''alice'' ''guess'')] manager0)
        ''alice''
   \<and> filter (\<lambda>attempt. time_now (reading 0 100000 ''r'' True) - attempt < 3600)
        [10, 20, 30, 40, 50] = []"
  by (simp add: is_blocked_def timestamps_def reading_def authenticate_user_def manager0_def
        alice_def lib0_def Let_def record_failed_attempt_def)

section \<open>Rate limiting\<close>



section \<open>Request dispatch\<close>

text \<open>
  C5. For a request whose \<^verbatim>\<open>Authorization\<close> header is \<^verbatim>\<open>Bearer\<close> followed by a
  credential string, the wrapper tries the token first and, only when that fails, the
  API key with the same string; a session cookie is never looked at: the outcome and
  the manager are the same for every cookie, the sessions are untouched, and the trace
  holds the token attempt (and the key attempt) only. If both fail the request is
  denied with 401. When the token resolves to a user, or the token fails and the key
  resolves to a user, the request ends with that user or with the 403 or 429 of the
  later permission and rate-limit checks, so a principal that is returned is the one
  of the bearer credential.
\<close>

theorem bearer_takes_precedence:
  assumes "authorization req = Some (''Bearer '' @ token)"
  shows "wrapper L a perms (req\<lparr>session_cookie := cookie\<rparr>) s = wrapper L a perms req s
       \<and> sessions (snd (wrapper L a perms req s)) = sessions s
       \<and> trace (snd (wrapper L a perms req s)) =
           trace s @ (if authenticate_jwt L a token s = None
                      then [TokenTried token, KeyTried token] else [TokenTried token])
       \<and> (authenticate_jwt L a token s = None \<and> authenticate_api_key token s = None \<longrightarrow>
            fst (wrapper L a perms req s) = Inl (HTTPException 401 ''Authentication required''))
       \<and> (\<forall>u. authenticate_jwt L a token s = Some u
                \<or> authenticate_jwt L a token s = None \<and> authenticate_api_key token s = Some u \<longrightarrow>
            fst (wrapper L a perms req s) \<in>
              {Inr u, Inl (HTTPException 403 ''Insufficient permissions''),
               Inl (HTTPException 429 ''Rate limit exceeded'')})"
proof -
  let ?req' = "req\<lparr>session_cookie := cookie\<rparr>"
  have r: "resolve_user L a req s =
     (case authenticate_jwt L a token s of
        Some u \<Rightarrow> (Some u, s\<lparr>trace := trace s @ [TokenTried token]\<rparr>)
      | None \<Rightarrow> (authenticate_api_key token s,
                 s\<lparr>trace := trace s @ [TokenTried token, KeyTried token]\<rparr>))"
    using assms by (rule resolve_user_bearer)
  have "authorization ?req' = Some (''Bearer '' @ token)"
    using assms by simp
  then have "resolve_user L a ?req' s =
     (case authenticate_jwt L a token s of
        Some u \<Rightarrow> (Some u, s\<lparr>trace := trace s @ [TokenTried token]\<rparr>)
      | None \<Rightarrow> (authenticate_api_key token s,
                 s\<lparr>trace := trace s @ [TokenTried token, KeyTried token]\<rparr>))"
    by (rule resolve_user_bearer)
  with r have same: "resolve_user L a ?req' s = resolve_user L a req s"
    by simp
  have c1: "wrapper L a perms ?req' s = wrapper L a perms req s"
    by (simp add: wrapper_cases same split: option.split)
  have rs: "sessions (snd (resolve_user L a req s)) = sessions s"
    by (simp add: r split: option.split)
  have c2: "sessions (snd (wrapper L a perms req s)) = sessions s"
    by (simp add: wrapper_sessions rs)
  have rt: "trace (snd (resolve_user L a req s)) =
           trace s @ (if authenticate_jwt L a token s = None
                      then [TokenTried token, KeyTried token] else [TokenTried token])"
    by (simp add: r split: option.split)
  have wt: "trace (snd (wrapper L a perms req s)) = trace (snd (resolve_user L a req s))"
    by (simp add: wrapper_cases check_rate_limit_trace split: option.split)
  have c3: "trace (snd (wrapper L a perms req s)) =
           trace s @ (if authenticate_jwt L a token s = None
                      then [TokenTried token, KeyTried token] else [TokenTried token])"
    using rt wt by simp
  have c4: "fst (wrapper L a perms req s) = Inl (HTTPException 401 ''Authentication required'')"
    if "authenticate_jwt L a token s = None \<and> authenticate_api_key token s = None"
    using that by (simp add: wrapper_cases r)
  have c5: "fst (wrapper L a perms req s) \<in>
              {Inr u, Inl (HTTPException 403 ''Insufficient permissions''),
               Inl (HTTPException 429 ''Rate limit exceeded'')}"
    if "authenticate_jwt L a token s = Some u
        \<or> authenticate_jwt L a token s = None \<and> authenticate_api_key token s = Some u" for u
  proof -
    from that have "fst (resolve_user L a req s) = Some u"
      by (auto simp: r)
    then show ?thesis
      by (simp add: wrapper_cases)
  qed
  from c1 c2 c3 c4 c5 show ?thesis by blast
qed

theorem bearer_takes_precedence_witness:
  "authorization \<lparr>authorization = Some (''Bearer '' @ ''jwt-alice''), session_cookie = Some ''s1'',
                  client_host = Some ''10.0.0.1'', url_path = ''/chat''\<rparr>
     = Some (''Bearer '' @ ''jwt-alice'')
   \<and> authenticate_jwt lib0 (reading 50 50 ''r'' True) ''jwt-alice'' manager0 = Some alice
   \<and> fst (validate_session lib0 (reading 50 50 ''r'' True) ''s1'' ''10.0.0.1'' manager0) = Some session1
   \<and> user_id session1 = ''bob''
   \<and> fst (wrapper lib0 (reading 50 50 ''r'' True) []
        \<lparr>authorization = Some (''Bearer '' @ ''jwt-alice''), session_cookie = Some ''s1'',
         client_host = Some ''10.0.0.1'', url_path = ''/chat''\<rparr> manager0) = Inr alice
   \<and> trace (snd (wrapper lib0 (reading 50 50 ''r'' True) []
        \<lparr>authorization = Some (''Bearer '' @ ''jwt-alice''), session_cookie = Some ''s1'',
         client_host = Some ''10.0.0.1'', url_path = ''/chat''\<rparr> manager0)) = [TokenTried ''jwt-alice'']
   \<and> fst (wrapper lib0 (reading 50 50 ''r'' True) []
        \<lparr>authorization = Some (''Bearer '' @ ''wrong''), session_cookie = Some ''s1'',
         client_host = Some ''10.0.0.1'', url_path = ''/chat''\<rparr> manager0)
       = Inl (HTTPException 401 ''Authentication required'')"
proof -
  let ?a = "reading 50 50 ''r'' True"
  let ?req = "\<lparr>authorization = Some (''Bearer '' @ ''jwt-alice''), session_cookie = Some ''s1'',
                  client_host = Some ''10.0.0.1'', url_path = ''/chat''\<rparr>"
  let ?bad = "\<lparr>authorization = Some (''Bearer '' @ ''wrong''), session_cookie = Some ''s1'',
                  client_host = Some ''10.0.0.1'', url_path = ''/chat''\<rparr>"
  have h: "authorization ?req = Some (''Bearer '' @ ''jwt-alice'')" by simp
  have hb: "authorization ?bad = Some (''Bearer '' @ ''wrong'')" by simp
  have j: "authenticate_jwt lib0 ?a ''jwt-alice'' manager0 = Some alice"
    by (simp add: authenticate_jwt_def lib0_def manager0_def alice_def reading_def)
  have v: "fst (validate_session lib0 ?a ''s1'' ''10.0.0.1'' manager0) = Some session1"
    by (simp add: validate_session_def manager0_def session1_def reading_def)
  have b: "user_id session1 = ''bob''" by (simp add: session1_def)
  have nb: "authenticate_jwt lib0 ?a ''wrong'' manager0 = None
      \<and> authenticate_api_key ''wrong'' manager0 = None"
    by (simp add: authenticate_jwt_def authenticate_api_key_def lib0_def manager0_def alice_def
          bob_def)
  have ok: "fst (wrapper lib0 ?a [] ?req manager0) = Inr alice"
    by (simp add: wrapper_def resolve_user_def bearer_token_def authenticate_jwt_def
          check_rate_limit_def timestamps_def lib0_def manager0_def alice_def reading_def Let_def)
  note t = bearer_takes_precedence [OF h, of lib0 ?a "[]" "Some ''s1''" manager0]
  from t j have tr: "trace (snd (wrapper lib0 ?a [] ?req manager0)) = trace manager0 @ [TokenTried ''jwt-alice'']"
    by simp
  have tr': "trace (snd (wrapper lib0 ?a [] ?req manager0)) = [TokenTried ''jwt-alice'']"
    using tr by (simp add: manager0_def)
  from bearer_takes_precedence [OF hb, of lib0 ?a "[]" "Some ''s1''" manager0] nb
  have d: "fst (wrapper lib0 ?a [] ?bad manager0) = Inl (HTTPException 401 ''Authentication required'')"
    by blast
  from h j v b ok tr' d show ?thesis by blast
qed

section \<open>Persistence\<close>

text \<open>
  C2, as stated: when the flush of the store fails, the mutating operation fails and
  reports it. \<^verbatim>\<open>_save_users\<close> and \<^verbatim>\<open>_save_sessions\<close> catch every exception,
  print it and return, and no caller looks at a result. Creating a user while the
  flush raises before the file is opened returns the new user, keeps it in memory and
  leaves no file; when \<^verbatim>\<open>f.write\<close> raises instead, the user is returned all the
  same and the file is left emptied.
\<close>

theorem flush_failure_swallowed_counterexample:
  "io_raises (reading 5 5 ''k'' True)
   \<and> try_save_users lib0 (reading 5 5 ''k'' True)
        (manager0\<lparr>users := [(''alice'', alice), (''bob'', bob),
           (''carol'', \<lparr>username = ''carol'', password_hash = ''#pw'', api_keys = [''pllm_k''],
                        permissions = [''chat''], created_at = PyDatetime 5, last_login = None,
                        is_active = True, rate_limit = 100\<rparr>)]\<rparr>) = Inl IOFailure
   \<and> create_user lib0 (reading 5 5 ''k'' True) ''carol'' ''pw'' [''chat''] manager0 =
       (Inr \<lparr>username = ''carol'', password_hash = ''#pw'', api_keys = [''pllm_k''],
              permissions = [''chat''], created_at = PyDatetime 5, last_login = None,
              is_active = True, rate_limit = 100\<rparr>,
        manager0\<lparr>users := [(''alice'', alice), (''bob'', bob),
           (''carol'', \<lparr>username = ''carol'', password_hash = ''#pw'', api_keys = [''pllm_k''],
                        permissions = [''chat''], created_at = PyDatetime 5, last_login = None,
                        is_active = True, rate_limit = 100\<rparr>)]\<rparr>)
   \<and> users_file (snd (create_user lib0 (reading 5 5 ''k'' True) ''carol'' ''pw'' [''chat''] manager0))
       = None
   \<and> fst (create_user lib0 ((reading 5 5 ''k'' True)\<lparr>raises_at := InWrite\<rparr>)
             ''carol'' ''pw'' [''chat''] manager0) =
       Inr \<lparr>username = ''carol'', password_hash = ''#pw'', api_keys = [''pllm_k''],
             permissions = [''chat''], created_at = PyDatetime 5, last_login = None,
             is_active = True, rate_limit = 100\<rparr>
   \<and> users_file (snd (create_user lib0 ((reading 5 5 ''k'' True)\<lparr>raises_at := InWrite\<rparr>)
                         ''carol'' ''pw'' [''chat''] manager0))
       = Some Truncated"
  by (simp add: create_user_def has_key_def generate_api_key_def save_users_def try_save_users_def
        users_data_def lib0_def manager0_def alice_def bob_def reading_def Let_def)

text \<open>
  C2, amended. A failed flush is swallowed: for every call of the manager, the value
  returned (or the exception raised) and the manager's state in memory are the same
  whether the flush raises or not, and wherever it raises. The failure shows in the
  files only, and there it depends on the statement that raised: a flush that raises
  before the file is opened leaves the file as it was (so does every call of the
  manager then, for both files); one that raises in \<^verbatim>\<open>f.write\<close> leaves the file
  emptied or partly written; one that raises in \<^verbatim>\<open>os.chmod\<close> leaves the new
  content written.
\<close>

theorem flush_failure_is_swallowed:
  "fst (step L (a\<lparr>io_raises := True, raises_at := w\<rparr>) c s) = fst (step L (a\<lparr>io_raises := False\<rparr>) c s)
   \<and> in_memory (snd (step L (a\<lparr>io_raises := True, raises_at := w\<rparr>) c s)) =
       in_memory (snd (step L (a\<lparr>io_raises := False\<rparr>) c s))
   \<and> users_file (snd (step L (a\<lparr>io_raises := True, raises_at := BeforeOpen\<rparr>) c s)) = users_file s
   \<and> sessions_file (snd (step L (a\<lparr>io_raises := True, raises_at := BeforeOpen\<rparr>) c s)) = sessions_file s
   \<and> users_file (save_users L (a\<lparr>io_raises := True, raises_at := w\<rparr>) s) =
       (case users_data L (users s) of
          Inl e \<Rightarrow> users_file s
        | Inr d \<Rightarrow>
            (case w of
               BeforeOpen \<Rightarrow> users_file s
             | InWrite \<Rightarrow> Some Truncated
             | InChmod \<Rightarrow> Some (Encrypted d)))
   \<and> sessions_file (save_sessions L (a\<lparr>io_raises := True, raises_at := w\<rparr>) s) =
       (case w of
          BeforeOpen \<Rightarrow> sessions_file s
        | InWrite \<Rightarrow> Some Truncated
        | InChmod \<Rightarrow> Some (Encrypted (sessions_data L (sessions s))))"
proof -
  have m: "in_memory s = in_memory s" by simp
  have e: "(a\<lparr>io_raises := False\<rparr>)\<lparr>io_raises := True, raises_at := w\<rparr> =
           a\<lparr>io_raises := True, raises_at := w\<rparr>" by simp
  from mem_step [OF m, where L = L and a = "a\<lparr>io_raises := False\<rparr>" and b = True
      and w = w and c = c]
  have one: "fst (step L (a\<lparr>io_raises := True, raises_at := w\<rparr>) c s) =
               fst (step L (a\<lparr>io_raises := False\<rparr>) c s)
   \<and> in_memory (snd (step L (a\<lparr>io_raises := True, raises_at := w\<rparr>) c s)) =
       in_memory (snd (step L (a\<lparr>io_raises := False\<rparr>) c s))"
    by (simp only: e)
  have "io_raises (a\<lparr>io_raises := True, raises_at := BeforeOpen\<rparr>)
        \<and> raises_at (a\<lparr>io_raises := True, raises_at := BeforeOpen\<rparr>) = BeforeOpen"
    by simp
  then have two: "users_file (snd (step L (a\<lparr>io_raises := True, raises_at := BeforeOpen\<rparr>) c s)) = users_file s
       \<and> sessions_file (snd (step L (a\<lparr>io_raises := True, raises_at := BeforeOpen\<rparr>) c s)) = sessions_file s"
    by (rule files_step)
  have three: "users_file (save_users L (a\<lparr>io_raises := True, raises_at := w\<rparr>) s) =
       (case users_data L (users s) of
          Inl e \<Rightarrow> users_file s
        | Inr d \<Rightarrow>
            (case w of
               BeforeOpen \<Rightarrow> users_file s
             | InWrite \<Rightarrow> Some Truncated
             | InChmod \<Rightarrow> Some (Encrypted d)))"
    by (simp add: save_users_def split: sum.split stage.split)
  have four: "sessions_file (save_sessions L (a\<lparr>io_raises := True, raises_at := w\<rparr>) s) =
       (case w of
          BeforeOpen \<Rightarrow> sessions_file s
        | InWrite \<Rightarrow> Some Truncated
        | InChmod \<Rightarrow> Some (Encrypted (sessions_data L (sessions s))))"
    by (simp add: save_sessions_def split: stage.split)
  from one two three four show ?thesis by blast
qed

text \<open>
  C3. Saving the user dictionary and loading it again does not give the dictionary
  back. \<^verbatim>\<open>_save_users\<close> writes \<^verbatim>\<open>created_at\<close> and \<^verbatim>\<open>last_login\<close> as ISO
  strings and \<^verbatim>\<open>_load_users\<close> builds \<^verbatim>\<open>User(**user_data)\<close> without parsing
  them (\<^verbatim>\<open>_load_sessions\<close> calls \<^verbatim>\<open>datetime.fromisoformat\<close>), so a loaded user
  holds a string where the saved one held a \<^verbatim>\<open>datetime\<close>, and the next save of the
  loaded dictionary raises on \<^verbatim>\<open>created_at.isoformat()\<close>. When the flush raises (as
  it does in the file as it stands, \<^verbatim>\<open>json\<close> not being imported) nothing is written
  and the load of a missing file is empty.
\<close>

theorem users_round_trip_loses_datetimes:
  "users manager0 = [(''alice'', alice), (''bob'', bob)]
   \<and> user.created_at alice = PyDatetime 0
   \<and> load_users (reading 0 0 ''r'' False) (save_users lib0 (reading 0 0 ''r'' False) manager0)
       = [(''alice'', alice\<lparr>user.created_at := PyStr ''1970-01-01T00:00:00''\<rparr>),
          (''bob'', bob\<lparr>user.created_at := PyStr ''1970-01-01T00:00:00''\<rparr>)]
   \<and> try_save_users lib0 (reading 0 0 ''r'' False)
        (manager0\<lparr>users := load_users (reading 0 0 ''r'' False)
                              (save_users lib0 (reading 0 0 ''r'' False) manager0)\<rparr>)
       = Inl AttributeError
   \<and> load_users (reading 0 0 ''r'' True) (save_users lib0 (reading 0 0 ''r'' True) manager0) = []"
  by (simp add: load_users_def save_users_def try_save_users_def users_data_def user_of_dict_def
        lib0_def manager0_def alice_def bob_def reading_def)

end
